theory Spec2Isabelle
  imports Main "HOL-Library.Sublist" "HOL-Library.Word"
begin

section \<open>Errors, strings and integers\<close>

text \<open>
  Go error values. The sentinels of package \<open>alert\<close> (alert.go) and those of the
  external package \<open>kvdb\<close> are distinct values, compared by identity in the source
  (\<open>err != kvdb.ErrNotFound\<close>); \<open>Errorf\<close> is an error built by \<open>fmt.Errorf\<close>, and
  \<open>ExtError\<close> any other error handed over by an external library, with its text.
\<close>

datatype error =
    KvErrNotFound
  | KvErrExist
  | KvErrValueMismatch
  | ErrNotSupported
  | ErrNotFound
  | ErrExist
  | ErrUnmarshal
  | ErrIllegal
  | ErrNotInitialized
  | ErrAlertClientNotFound
  | ErrResourceNotFound
  | ErrSubscribedRaise
  | Errorf string
  | ExtError string

text \<open>\<open>err.Error()\<close>: the text of an error.\<close>

fun Error :: "error \<Rightarrow> string" where
  "Error KvErrNotFound = ''Key not found''"
| "Error KvErrExist = ''Key already exists''"
| "Error KvErrValueMismatch = ''Value mismatch''"
| "Error ErrNotSupported = ''Implementation not supported''"
| "Error ErrNotFound = ''Key not found''"
| "Error ErrExist = ''Key already exists''"
| "Error ErrUnmarshal = ''Failed to unmarshal value''"
| "Error ErrIllegal = ''Illegal operation''"
| "Error ErrNotInitialized = ''Alert not initialized''"
| "Error ErrAlertClientNotFound = ''Alert client not found''"
| "Error ErrResourceNotFound = ''Resource not found in Alert''"
| "Error ErrSubscribedRaise = ''Could not raise alert and its subscribed alerts''"
| "Error (Errorf s) = s"
| "Error (ExtError s) = s"

text \<open>A call either returns or panics (index out of range, nil dereference).\<close>

datatype 'a outcome = Return 'a | Panic

type_synonym bytes = string
type_synonym int64 = "64 word"

text \<open>\<open>strings.Split s sep\<close> for a one-character separator: a string without the
  separator gives the one-element list of itself.\<close>

fun Split :: "string \<Rightarrow> char \<Rightarrow> string list" where
  "Split [] c = [[]]"
| "Split (x # xs) c =
     (if x = c then [] # Split xs c
      else (case Split xs c of [] \<Rightarrow> [[x]] | y # ys \<Rightarrow> (x # y) # ys))"

text \<open>\<open>strings.HasSuffix s suf\<close>, \<open>strings.HasPrefix s pre\<close> and
  \<open>strings.Contains s sub\<close>.\<close>

definition HasSuffix :: "string \<Rightarrow> string \<Rightarrow> bool" where
  "HasSuffix s suf = prefix (rev suf) (rev s)"

definition HasPrefix :: "string \<Rightarrow> string \<Rightarrow> bool" where
  "HasPrefix s pre = prefix pre s"

fun Contains :: "string \<Rightarrow> string \<Rightarrow> bool" where
  "Contains [] sub = (sub = [])"
| "Contains (x # xs) sub = (prefix sub (x # xs) \<or> Contains xs sub)"

text \<open>\<open>strconv.FormatInt v 10\<close> on a 64-bit signed integer.\<close>

fun FormatNat :: "nat \<Rightarrow> string" where
  "FormatNat n =
     (if n < 10 then [''0123456789'' ! n]
      else FormatNat (n div 10) @ [''0123456789'' ! (n mod 10)])"

declare FormatNat.simps [simp del]

definition FormatInt :: "int64 \<Rightarrow> string" where
  "FormatInt v =
     (if sint v < 0 then CHR ''-'' # FormatNat (nat (- sint v)) else FormatNat (nat (sint v)))"

section \<open>The alert record (package api)\<close>

datatype ResourceType =
    RESOURCE_TYPE_NONE
  | RESOURCE_TYPE_VOLUME
  | RESOURCE_TYPE_NODE
  | RESOURCE_TYPE_CLUSTER
  | RESOURCE_TYPE_DRIVE

datatype AlertActionType =
    ALERT_ACTION_TYPE_NONE
  | ALERT_ACTION_TYPE_DELETE
  | ALERT_ACTION_TYPE_CREATE
  | ALERT_ACTION_TYPE_UPDATE

text \<open>\<open>Severity\<close> is an enumeration compared numerically by the source
  (\<open>v.Severity <= filter.Severity\<close>), so it is kept as its number.\<close>

record Alert =
  Id :: int64
  Severity :: int
  AlertType :: int64
  Message :: string
  Timestamp :: int64
  ResourceId :: string
  Resource :: ResourceType
  Cleared :: bool
  Ttl :: nat

text \<open>The zero value of \<open>api.Alert\<close> (\<open>var alert api.Alert\<close>).\<close>

definition zeroAlert :: Alert where
  "zeroAlert = \<lparr>Id = 0, Severity = 0, AlertType = 0, Message = [], Timestamp = 0,
     ResourceId = [], Resource = RESOURCE_TYPE_NONE, Cleared = False, Ttl = 0\<rparr>"

section \<open>Key-value pairs (package kvdb)\<close>

datatype KVAction = KVSet | KVCreate | KVGet | KVDelete | KVExpire | KVUknown

record KVPair =
  Key :: string
  Value :: bytes
  Action :: KVAction
  TTL :: nat

section \<open>Constants of alert\_kvdb.go\<close>

definition alertKey :: string where "alertKey = ''alert/''"
definition subscriptionsKey :: string where "subscriptionsKey = ''subscriptions''"
definition nextAlertIDKey :: string where "nextAlertIDKey = ''nextAlertId''"
definition clusterKey :: string where "clusterKey = ''cluster/''"
definition volumeKey :: string where "volumeKey = ''volume/''"
definition nodeKey :: string where "nodeKey = ''node/''"
definition driveKey :: string where "driveKey = ''drive/''"
definition bootstrap :: string where "bootstrap = ''bootstrap''"

section \<open>The cluster descriptor (package cluster)\<close>

text \<open>
  Modelled from the spec: the declarations of \<open>ClusterInfo\<close>, \<open>NodeEntry\<close>,
  \<open>ClusterInitState\<close> and \<open>api.Status\<close> are not among the source files. The
  spec gives \<open>ClusterInfo\<close> a \<open>Status\<close> (an enumerated lifecycle state) and
  \<open>NodeEntries\<close>, a mapping from node identifier to node metadata.
\<close>

datatype Status = STATUS_NONE | STATUS_INIT | STATUS_OK | STATUS_OFFLINE | STATUS_ERROR

typedecl NodeEntry

record ClusterInfo =
  Status :: Status
  NodeEntries :: "string \<rightharpoonup> NodeEntry"

definition ClusterDBKey :: string where "ClusterDBKey = ''cluster/database''"

section \<open>JSON decoding and encoding (package encoding/json)\<close>

text \<open>
  \<open>json.Unmarshal data &v\<close> and \<open>json.Marshal\<close> belong to an external library
  and are parameters of the model. A decoder takes the bytes and the current
  value of the variable it decodes into, and gives the variable's new value
  with the error, if any. \<open>unmarshalAlertPtr\<close> decodes into a variable of type
  \<open>*api.Alert\<close>, whose value \<open>None\<close> is the nil pointer: the library leaves or
  makes it nil on the JSON value \<open>null\<close>, without error.
\<close>

type_synonym 'a unmarshal = "bytes \<Rightarrow> 'a \<Rightarrow> 'a \<times> error option"

record json =
  unmarshalInt :: "int64 unmarshal"
  unmarshalAlert :: "Alert unmarshal"
  unmarshalAlertPtr :: "(Alert option) unmarshal"
  unmarshalAlerts :: "(Alert list) unmarshal"
  unmarshalClusterInfo :: "ClusterInfo unmarshal"
  marshalAlert :: "Alert \<Rightarrow> bytes"

section \<open>The key-value store (package kvdb)\<close>

text \<open>
  Modelled from the spec: the store is an external dependency, and the spec
  fixes its contract (sections 2 and 6): \<open>Get\<close> reports a missing key as
  not found, \<open>Create\<close> fails when the key exists, \<open>Update\<close> fails when the key
  is absent, \<open>Put\<close> overwrites, \<open>CompareAndSet\<close> swaps atomically and fails when
  the stored bytes differ from the expected prior bytes, \<open>Enumerate\<close> lists the
  pairs under a prefix, \<open>Snapshot\<close> gives a frozen copy with its version, and
  \<open>NewUpdatesCollector\<close> a collector bound to a version.

  The store holds, for each key, its bytes and its time to live, in insertion
  order. The client modelled here shares the store with other clients and the
  network: before each of its calls the environment takes one step of its
  schedule, which either lets other clients rewrite the store (\<open>Interfere\<close>) or
  makes the call fail without effect (\<open>Fault\<close>). With the schedule used up the
  client is alone with a reliable store. Every call is recorded in \<open>calls\<close>.
\<close>

type_synonym kvstore = "(string \<times> bytes \<times> nat) list"

datatype envStep = Interfere "kvstore \<Rightarrow> kvstore" | Fault error

datatype kvCall =
    CallGet string
  | CallPut string bytes nat
  | CallCreate string bytes nat
  | CallUpdate string bytes nat
  | CallDelete string
  | CallCompareAndSet string bytes bytes
  | CallEnumerate string
  | CallSnapshot string
  | CallNewUpdatesCollector string nat
  | CallSnapshotGet string

record world =
  kv :: kvstore
  sched :: "envStep list"
  kvIndex :: nat
  clock :: int64
  calls :: "kvCall list"

definition enter :: "kvCall \<Rightarrow> world \<Rightarrow> error option \<times> world" where
  "enter c w =
     (let w1 = w\<lparr>calls := calls w @ [c]\<rparr> in
      case sched w1 of
        [] \<Rightarrow> (None, w1)
      | Interfere f # rest \<Rightarrow>
          (None, w1\<lparr>kv := f (kv w1), kvIndex := kvIndex w1 + 1, sched := rest\<rparr>)
      | Fault e # rest \<Rightarrow> (Some e, w1\<lparr>sched := rest\<rparr>))"

text \<open>Writing a key in place, or after the others when it is new.\<close>

fun setKey :: "string \<Rightarrow> bytes \<times> nat \<Rightarrow> kvstore \<Rightarrow> kvstore" where
  "setKey k e [] = [(k, e)]"
| "setKey k e (p # ps) = (if fst p = k then (k, e) # ps else p # setKey k e ps)"

definition pairOf :: "KVAction \<Rightarrow> string \<times> bytes \<times> nat \<Rightarrow> KVPair" where
  "pairOf act e = \<lparr>Key = fst e, Value = fst (snd e), Action = act, TTL = snd (snd e)\<rparr>"

definition kvGet :: "string \<Rightarrow> world \<Rightarrow> (KVPair option \<times> error option) \<times> world" where
  "kvGet key w =
     (case enter (CallGet key) w of
        (Some e, w1) \<Rightarrow> ((None, Some e), w1)
      | (None, w1) \<Rightarrow>
          (case map_of (kv w1) key of
             None \<Rightarrow> ((None, Some KvErrNotFound), w1)
           | Some e \<Rightarrow> ((Some (pairOf KVGet (key, e)), None), w1)))"

text \<open>\<open>GetVal key &v\<close>: \<open>Get\<close>, then \<open>json.Unmarshal\<close> of the value into \<open>v\<close>. It
  gives the error of either, or the pair read with the decoded value.\<close>

definition kvGetVal ::
  "string \<Rightarrow> 'a unmarshal \<Rightarrow> 'a \<Rightarrow> world \<Rightarrow> (error + KVPair \<times> 'a) \<times> world" where
  "kvGetVal key um v w =
     (case enter (CallGet key) w of
        (Some e, w1) \<Rightarrow> (Inl e, w1)
      | (None, w1) \<Rightarrow>
          (case map_of (kv w1) key of
             None \<Rightarrow> (Inl KvErrNotFound, w1)
           | Some e \<Rightarrow>
               (case um (fst e) v of
                  (_, Some er) \<Rightarrow> (Inl er, w1)
                | (v', None) \<Rightarrow> (Inr (pairOf KVGet (key, e), v'), w1))))"

definition kvCreate ::
  "string \<Rightarrow> bytes \<Rightarrow> nat \<Rightarrow> world \<Rightarrow> (KVPair option \<times> error option) \<times> world" where
  "kvCreate key val ttl w =
     (case enter (CallCreate key val ttl) w of
        (Some e, w1) \<Rightarrow> ((None, Some e), w1)
      | (None, w1) \<Rightarrow>
          (case map_of (kv w1) key of
             Some _ \<Rightarrow> ((None, Some KvErrExist), w1)
           | None \<Rightarrow>
               ((Some (pairOf KVCreate (key, val, ttl)), None),
                w1\<lparr>kv := setKey key (val, ttl) (kv w1), kvIndex := kvIndex w1 + 1\<rparr>)))"

definition kvUpdate ::
  "string \<Rightarrow> bytes \<Rightarrow> nat \<Rightarrow> world \<Rightarrow> (KVPair option \<times> error option) \<times> world" where
  "kvUpdate key val ttl w =
     (case enter (CallUpdate key val ttl) w of
        (Some e, w1) \<Rightarrow> ((None, Some e), w1)
      | (None, w1) \<Rightarrow>
          (case map_of (kv w1) key of
             None \<Rightarrow> ((None, Some KvErrNotFound), w1)
           | Some _ \<Rightarrow>
               ((Some (pairOf KVSet (key, val, ttl)), None),
                w1\<lparr>kv := setKey key (val, ttl) (kv w1), kvIndex := kvIndex w1 + 1\<rparr>)))"

definition kvPut ::
  "string \<Rightarrow> bytes \<Rightarrow> nat \<Rightarrow> world \<Rightarrow> (KVPair option \<times> error option) \<times> world" where
  "kvPut key val ttl w =
     (case enter (CallPut key val ttl) w of
        (Some e, w1) \<Rightarrow> ((None, Some e), w1)
      | (None, w1) \<Rightarrow>
          ((Some (pairOf KVSet (key, val, ttl)), None),
           w1\<lparr>kv := setKey key (val, ttl) (kv w1), kvIndex := kvIndex w1 + 1\<rparr>))"

definition kvDelete :: "string \<Rightarrow> world \<Rightarrow> (KVPair option \<times> error option) \<times> world" where
  "kvDelete key w =
     (case enter (CallDelete key) w of
        (Some e, w1) \<Rightarrow> ((None, Some e), w1)
      | (None, w1) \<Rightarrow>
          (case map_of (kv w1) key of
             None \<Rightarrow> ((None, Some KvErrNotFound), w1)
           | Some e \<Rightarrow>
               ((Some (pairOf KVDelete (key, e)), None),
                w1\<lparr>kv := filter (\<lambda>p. fst p \<noteq> key) (kv w1), kvIndex := kvIndex w1 + 1\<rparr>)))"

text \<open>\<open>CompareAndSet kvp flags prevValue\<close>. The source passes the flags \<open>0\<close>
  only: the comparison is on the bytes.\<close>

definition kvCompareAndSet ::
  "KVPair \<Rightarrow> nat \<Rightarrow> bytes \<Rightarrow> world \<Rightarrow> (KVPair option \<times> error option) \<times> world" where
  "kvCompareAndSet kvp flags prevValue w =
     (case enter (CallCompareAndSet (Key kvp) (Value kvp) prevValue) w of
        (Some e, w1) \<Rightarrow> ((None, Some e), w1)
      | (None, w1) \<Rightarrow>
          (case map_of (kv w1) (Key kvp) of
             None \<Rightarrow> ((None, Some KvErrNotFound), w1)
           | Some (v, ttl) \<Rightarrow>
               if v \<noteq> prevValue then ((None, Some KvErrValueMismatch), w1)
               else
                 ((Some (pairOf KVSet (Key kvp, Value kvp, TTL kvp)), None),
                  w1\<lparr>kv := setKey (Key kvp) (Value kvp, TTL kvp) (kv w1),
                     kvIndex := kvIndex w1 + 1\<rparr>)))"

definition kvEnumerate :: "string \<Rightarrow> world \<Rightarrow> (KVPair list \<times> error option) \<times> world" where
  "kvEnumerate pfx w =
     (case enter (CallEnumerate pfx) w of
        (Some e, w1) \<Rightarrow> (([], Some e), w1)
      | (None, w1) \<Rightarrow>
          ((map (pairOf KVGet) (filter (\<lambda>p. HasPrefix (fst p) pfx) (kv w1)), None), w1))"

text \<open>\<open>Snapshot prefix\<close> gives the error, or the snapshot handle (the frozen copy
  of the store under the prefix) with its version.\<close>

definition kvSnapshot :: "string \<Rightarrow> world \<Rightarrow> (error + kvstore \<times> nat) \<times> world" where
  "kvSnapshot pfx w =
     (case enter (CallSnapshot pfx) w of
        (Some e, w1) \<Rightarrow> (Inl e, w1)
      | (None, w1) \<Rightarrow>
          (Inr (filter (\<lambda>p. HasPrefix (fst p) pfx) (kv w1), kvIndex w1), w1))"

text \<open>\<open>Get\<close> on a snapshot handle reads the frozen copy, never the live store.\<close>

definition snapshotGet ::
  "kvstore \<Rightarrow> string \<Rightarrow> world \<Rightarrow> (KVPair option \<times> error option) \<times> world" where
  "snapshotGet snap key w =
     (case enter (CallSnapshotGet key) w of
        (Some e, w1) \<Rightarrow> ((None, Some e), w1)
      | (None, w1) \<Rightarrow>
          (case map_of snap key of
             None \<Rightarrow> ((None, Some KvErrNotFound), w1)
           | Some e \<Rightarrow> ((Some (pairOf KVGet (key, e)), None), w1)))"

record UpdatesCollector =
  collectorPrefix :: string
  startIndex :: nat

definition NewUpdatesCollector ::
  "string \<Rightarrow> nat \<Rightarrow> world \<Rightarrow> (error + UpdatesCollector) \<times> world" where
  "NewUpdatesCollector pfx version w =
     (case enter (CallNewUpdatesCollector pfx version) w of
        (Some e, w1) \<Rightarrow> (Inl e, w1)
      | (None, w1) \<Rightarrow> (Inr \<lparr>collectorPrefix = pfx, startIndex = version\<rparr>, w1))"

section \<open>The cluster state store (cluster/database.go)\<close>

record ClusterInitState =
  ClusterInfo :: ClusterInfo
  InitDb :: kvstore
  Version :: nat
  Collector :: UpdatesCollector

definition readClusterInfo :: "json \<Rightarrow> world \<Rightarrow> (ClusterInfo \<times> error option) \<times> world" where
  "readClusterInfo js w =
     (let db = \<lparr>Status = STATUS_INIT, NodeEntries = Map.empty\<rparr>;
          ((kvp, err), w1) = kvGet ClusterDBKey w
      in
        if (case err of None \<Rightarrow> False | Some e \<Rightarrow> \<not> Contains (Error e) ''Key not found'')
        then ((db, err), w1)
        else
          (case kvp of
             None \<Rightarrow> ((db, None), w1)
           | Some p \<Rightarrow>
               if Value p = ''{}'' then ((db, None), w1)
               else
                 (case unmarshalClusterInfo js (Value p) db of
                    (db', Some e) \<Rightarrow> ((db', Some e), w1)
                  | (db', None) \<Rightarrow> ((db', None), w1))))"

definition snapAndReadClusterInfo ::
  "json \<Rightarrow> world \<Rightarrow> (ClusterInitState option \<times> error option) \<times> world" where
  "snapAndReadClusterInfo js w =
     (case kvSnapshot [] w of
        (Inl e, w1) \<Rightarrow> ((None, Some e), w1)
      | (Inr (snap, version), w1) \<Rightarrow>
          (case NewUpdatesCollector [] version w1 of
             (Inl e, w2) \<Rightarrow> ((None, Some e), w2)
           | (Inr collector, w2) \<Rightarrow>
               (let ((clusterDB, err), w3) = snapshotGet snap ClusterDBKey w2 in
                if (case err of None \<Rightarrow> False
                    | Some e \<Rightarrow> \<not> Contains (Error e) ''Key not found'')
                then ((None, err), w3)
                else
                  (let db = \<lparr>Status = STATUS_INIT, NodeEntries = Map.empty\<rparr>;
                       state = \<lparr>ClusterInfo = db, InitDb = snap, Version = version,
                                Collector = collector\<rparr>
                   in
                     (case clusterDB of
                        None \<Rightarrow> ((Some state, None), w3)
                      | Some p \<Rightarrow>
                          if Value p = ''{}'' then ((Some state, None), w3)
                          else
                            (case unmarshalClusterInfo js (Value p) db of
                               (db', Some e) \<Rightarrow>
                                 ((Some (state\<lparr>ClusterInfo := db'\<rparr>), Some e), w3)
                             | (db', None) \<Rightarrow>
                                 ((Some (state\<lparr>ClusterInfo := db'\<rparr>), None), w3)))))))"

section \<open>The alert store (alert/alert\_kvdb.go)\<close>

text \<open>
  The receiver \<open>kva\<close> gives the store instance of its cluster
  (\<open>GetKvdbInstance\<close>); the model has that one instance, the \<open>world\<close>.
\<close>

definition getResourceKey :: "ResourceType \<Rightarrow> string" where
  "getResourceKey resourceType =
     (if resourceType = RESOURCE_TYPE_VOLUME then alertKey @ volumeKey
      else if resourceType = RESOURCE_TYPE_NODE then alertKey @ nodeKey
      else if resourceType = RESOURCE_TYPE_CLUSTER then alertKey @ clusterKey
      else alertKey @ driveKey)"

definition getNextAlertIDKey :: string where
  "getNextAlertIDKey = alertKey @ nextAlertIDKey"

definition getSubscriptionsKey :: "int64 \<Rightarrow> string" where
  "getSubscriptionsKey alertType = alertKey @ subscriptionsKey @ ''/'' @ FormatInt alertType"

text \<open>
  The retry loop of \<open>getNextIDFromKVDB\<close>: \<open>for err != nil { ... }\<close>. It has no
  bound in the source, so a run that never leaves it has the value \<open>None\<close>.
\<close>

partial_function (option) nextIDLoop ::
  "json \<Rightarrow> int64 \<Rightarrow> error option \<Rightarrow> world \<Rightarrow> ((int64 \<times> error option) \<times> world) option" where
  "nextIDLoop js nextAlertID err w =
     (case err of
        None \<Rightarrow> Some ((nextAlertID, None), w)
      | Some _ \<Rightarrow>
          (case kvGetVal getNextAlertIDKey (unmarshalInt js) nextAlertID w of
             (Inl _, w1) \<Rightarrow> Some ((- 1, Some ErrNotInitialized), w1)
           | (Inr (kvp, n), w1) \<Rightarrow>
               (let prevValue = Value kvp;
                    newKvp = kvp\<lparr>Value := FormatInt (n + 1)\<rparr>;
                    ((_, err'), w2) = kvCompareAndSet newKvp 0 prevValue w1
                in nextIDLoop js n err' w2)))"

declare nextIDLoop.simps [code]

definition getNextIDFromKVDB ::
  "json \<Rightarrow> world \<Rightarrow> ((int64 \<times> error option) \<times> world) option" where
  "getNextIDFromKVDB js w =
     (let nextAlertID = 0;
          ((_, err), w1) = kvCreate getNextAlertIDKey (FormatInt (nextAlertID + 1)) 0 w
      in nextIDLoop js nextAlertID err w1)"

text \<open>\<open>raise\<close> writes the identifier, the time and the cleared flag into the
  caller's alert; the model returns the alert with the error.\<close>

definition raise :: "json \<Rightarrow> Alert \<Rightarrow> world \<Rightarrow> ((Alert \<times> error option) \<times> world) option" where
  "raise js a w =
     (if Resource a = RESOURCE_TYPE_NONE then Some ((a, Some ErrResourceNotFound), w)
      else
        (case getNextIDFromKVDB js w of
           None \<Rightarrow> None
         | Some ((alertID, Some e), w1) \<Rightarrow> Some ((a, Some e), w1)
         | Some ((alertID, None), w1) \<Rightarrow>
             (let a1 = a\<lparr>Id := alertID, Timestamp := clock w1, Cleared := False\<rparr>;
                  ((_, err), w2) =
                    kvCreate (getResourceKey (Resource a1) @ FormatInt (Id a1))
                      (marshalAlert js a1) (Ttl a1) w1
              in Some ((a1, err), w2))))"

text \<open>
  \<open>Raise\<close> calls itself for every subscribed alert, to no fixed depth: the first
  argument bounds the depth of the calls, and a run that exceeds it has the
  value \<open>None\<close>. \<open>raiseSubscribed\<close> is the loop over the subscriptions.
\<close>

fun Raise :: "nat \<Rightarrow> json \<Rightarrow> Alert \<Rightarrow> world \<Rightarrow> ((Alert \<times> error option) \<times> world) option"
and raiseSubscribed :: "nat \<Rightarrow> json \<Rightarrow> Alert list \<Rightarrow> world \<Rightarrow> (error option \<times> world) option"
where
  "Raise 0 js a w = None"
| "Raise (Suc depth) js a w =
     (case kvGetVal (getSubscriptionsKey (AlertType a)) (unmarshalAlerts js) [] w of
        (Inl e, w1) \<Rightarrow> if e \<noteq> KvErrNotFound then Some ((a, Some e), w1) else raise js a w1
      | (Inr (_, subscriptions), w1) \<Rightarrow>
          (case raiseSubscribed depth js subscriptions w1 of
             None \<Rightarrow> None
           | Some (Some e, w2) \<Rightarrow> Some ((a, Some e), w2)
           | Some (None, w2) \<Rightarrow> raise js a w2))"
| "raiseSubscribed depth js [] w = Some (None, w)"
| "raiseSubscribed depth js (alert # rest) w =
     (case Raise depth js alert w of
        None \<Rightarrow> None
      | Some ((_, Some _), w1) \<Rightarrow> Some (Some ErrSubscribedRaise, w1)
      | Some ((_, None), w1) \<Rightarrow> raiseSubscribed depth js rest w1)"

definition clear ::
  "json \<Rightarrow> ResourceType \<Rightarrow> int64 \<Rightarrow> nat \<Rightarrow> world \<Rightarrow> error option \<times> world" where
  "clear js resourceType alertID ttl w =
     (if resourceType = RESOURCE_TYPE_NONE then (Some ErrResourceNotFound, w)
      else
        (case kvGetVal (getResourceKey resourceType @ FormatInt alertID)
                (unmarshalAlert js) zeroAlert w of
           (Inl e, w1) \<Rightarrow> (Some e, w1)
         | (Inr (_, alert), w1) \<Rightarrow>
             (let alert1 = alert\<lparr>Cleared := True\<rparr>;
                  ((_, err), w2) =
                    kvUpdate (getResourceKey resourceType @ FormatInt alertID)
                      (marshalAlert js alert1) ttl w1
              in (err, w2))))"

definition Clear ::
  "json \<Rightarrow> ResourceType \<Rightarrow> int64 \<Rightarrow> nat \<Rightarrow> world \<Rightarrow> error option \<times> world" where
  "Clear js resourceType alertID ttl w = clear js resourceType alertID ttl w"

text \<open>The loop of \<open>getResourceSpecificAlerts\<close> over the enumerated pairs: each
  value is decoded into a fresh \<open>var elem *api.Alert\<close>, nil at first, and the
  pointer is appended whatever it is. A nil slice and an empty one are both the
  empty list.\<close>

fun decodeAlerts ::
  "json \<Rightarrow> KVPair list \<Rightarrow> Alert option list \<Rightarrow> Alert option list \<times> error option" where
  "decodeAlerts js [] allAlerts = (allAlerts, None)"
| "decodeAlerts js (v # kvp) allAlerts =
     (case unmarshalAlertPtr js (Value v) None of
        (_, Some e) \<Rightarrow> ([], Some e)
      | (elem, None) \<Rightarrow> decodeAlerts js kvp (allAlerts @ [elem]))"

definition getResourceSpecificAlerts ::
  "json \<Rightarrow> ResourceType \<Rightarrow> world \<Rightarrow> (Alert option list \<times> error option) \<times> world" where
  "getResourceSpecificAlerts js resourceType w =
     (case kvEnumerate (getResourceKey resourceType) w of
        ((_, Some e), w1) \<Rightarrow> (([], Some e), w1)
      | ((kvp, None), w1) \<Rightarrow> (decodeAlerts js kvp [], w1))"

definition getAllAlerts ::
  "json \<Rightarrow> world \<Rightarrow> (Alert option list \<times> error option) \<times> world" where
  "getAllAlerts js w =
     (let allAlerts = [];
          ((nodeAlerts, err), w1) = getResourceSpecificAlerts js RESOURCE_TYPE_NODE w;
          allAlerts = (if err = None then allAlerts @ nodeAlerts else allAlerts);
          ((volumeAlerts, err), w2) = getResourceSpecificAlerts js RESOURCE_TYPE_VOLUME w1;
          allAlerts = (if err = None then allAlerts @ volumeAlerts else allAlerts);
          ((clusterAlerts, err), w3) = getResourceSpecificAlerts js RESOURCE_TYPE_CLUSTER w2;
          allAlerts = (if err = None then allAlerts @ clusterAlerts else allAlerts);
          ((driveAlerts, err), w4) = getResourceSpecificAlerts js RESOURCE_TYPE_DRIVE w3;
          allAlerts = (if err = None then allAlerts @ driveAlerts else allAlerts)
      in
        if length allAlerts > 0 then ((allAlerts, None), w4)
        else if length allAlerts = 0 then (([], Some (Errorf ''No alert raised yet'')), w4)
        else ((allAlerts, err), w4))"

text \<open>The severity loop of \<open>enumerate\<close>:
  \<open>for _, v := range resourceAlerts { if v.Severity <= filter.Severity { ... } }\<close>.
  Reading \<open>v.Severity\<close> through a nil \<open>v\<close> panics.\<close>

fun severityLoop ::
  "Alert \<Rightarrow> Alert option list \<Rightarrow> Alert option list \<Rightarrow> Alert option list outcome" where
  "severityLoop flt [] allAlerts = Return allAlerts"
| "severityLoop flt (None # rest) allAlerts = Panic"
| "severityLoop flt (Some v # rest) allAlerts =
     severityLoop flt rest
       (if Severity v \<le> Severity flt then allAlerts @ [Some v] else allAlerts)"

text \<open>\<open>enumerate kv filter\<close>. The filter is a pointer too (\<open>filterPtr\<close> here), read
  at once (\<open>filter.Resource\<close>): a nil filter panics before any call of the store.\<close>

definition enumerate_alerts ::
  "json \<Rightarrow> Alert option \<Rightarrow> world \<Rightarrow>
     ((Alert option list \<times> error option) \<times> world) outcome" where
  "enumerate_alerts js filterPtr w =
     (case filterPtr of
        None \<Rightarrow> Panic
      | Some flt \<Rightarrow>
          (let ((resourceAlerts, err), w1) =
                 (if Resource flt \<noteq> RESOURCE_TYPE_NONE
                  then getResourceSpecificAlerts js (Resource flt) w
                  else getAllAlerts js w)
           in
             if Resource flt \<noteq> RESOURCE_TYPE_NONE \<and> err \<noteq> None then Return (([], err), w1)
             else if Severity flt \<noteq> 0 then
               (case severityLoop flt resourceAlerts [] of
                  Panic \<Rightarrow> Panic
                | Return allAlerts \<Rightarrow> Return ((allAlerts, err), w1))
             else Return ((resourceAlerts, err), w1)))"

definition Enumerate ::
  "json \<Rightarrow> Alert option \<Rightarrow> world \<Rightarrow>
     ((Alert option list \<times> error option) \<times> world) outcome" where
  "Enumerate js filterPtr w = enumerate_alerts js filterPtr w"

section \<open>Allocations running concurrently\<close>

text \<open>
  Several callers of \<open>getNextIDFromKVDB\<close> share one store. A call of the store
  is atomic, and the calls of different callers interleave in any order.
  \<open>allocPc\<close> is the place a caller has reached in \<open>getNextIDFromKVDB\<close>: before
  \<open>Create\<close>; at the head of the loop, with the current \<open>nextAlertID\<close>; between
  the read and the compare-and-set, with the pair read and \<open>nextAlertID\<close>; or
  returned, with the identifier and the error. \<open>allocStep\<close> makes the caller's
  next call of the store, and \<open>runAlloc\<close> a number of them in a row.
\<close>

datatype allocPc =
    AtCreate
  | AtGetVal int64
  | AtCompareAndSet KVPair int64
  | Returned int64 "error option"

definition allocStep :: "json \<Rightarrow> allocPc \<Rightarrow> world \<Rightarrow> allocPc \<times> world" where
  "allocStep js pc w =
     (case pc of
        AtCreate \<Rightarrow>
          (let nextAlertID = 0;
               ((_, err), w1) = kvCreate getNextAlertIDKey (FormatInt (nextAlertID + 1)) 0 w
           in (case err of None \<Rightarrow> Returned nextAlertID None | Some _ \<Rightarrow> AtGetVal nextAlertID, w1))
      | AtGetVal nextAlertID \<Rightarrow>
          (case kvGetVal getNextAlertIDKey (unmarshalInt js) nextAlertID w of
             (Inl _, w1) \<Rightarrow> (Returned (- 1) (Some ErrNotInitialized), w1)
           | (Inr (kvp, n), w1) \<Rightarrow> (AtCompareAndSet kvp n, w1))
      | AtCompareAndSet kvp n \<Rightarrow>
          (let prevValue = Value kvp;
               newKvp = kvp\<lparr>Value := FormatInt (n + 1)\<rparr>;
               ((_, err), w2) = kvCompareAndSet newKvp 0 prevValue w
           in (case err of None \<Rightarrow> Returned n None | Some _ \<Rightarrow> AtGetVal n, w2))
      | Returned i e \<Rightarrow> (Returned i e, w))"

fun runAlloc :: "nat \<Rightarrow> json \<Rightarrow> allocPc \<Rightarrow> world \<Rightarrow> allocPc \<times> world" where
  "runAlloc 0 js pc w = (pc, w)"
| "runAlloc (Suc k) js pc w = (let (pc', w') = allocStep js pc w in runAlloc k js pc' w')"

text \<open>
  The callers, numbered, with the store they share. \<open>runConc\<close> runs them in the
  order of an interleaving: a list of caller numbers, one for each call of the
  store.
\<close>

record conc =
  procs :: "nat \<Rightarrow> allocPc"
  shared :: world

definition initial :: "world \<Rightarrow> conc" where
  "initial w = \<lparr>procs = (\<lambda>p. AtCreate), shared = w\<rparr>"

definition stepConc :: "json \<Rightarrow> nat \<Rightarrow> conc \<Rightarrow> conc" where
  "stepConc js p c =
     (let (pc', w') = allocStep js (procs c p) (shared c)
      in \<lparr>procs = (procs c)(p := pc'), shared = w'\<rparr>)"

fun runConc :: "json \<Rightarrow> nat list \<Rightarrow> conc \<Rightarrow> conc" where
  "runConc js [] c = c"
| "runConc js (p # ps) c = runConc js ps (stepConc js p c)"

section \<open>The watch subsystem\<close>

datatype watcherStatus = watchBootstrap | watchReady | watchError

text \<open>
  \<open>AlertWatcherFunc\<close>: the caller's callback. Its own effects are outside the
  program; the model keeps what it returns and records every invocation.
\<close>

type_synonym AlertWatcherFunc =
  "Alert option \<Rightarrow> AlertActionType \<Rightarrow> string \<Rightarrow> string \<Rightarrow> error option"

text \<open>
  A watcher. The field \<open>kvdb\<close> is the bound store handle, of which the watch
  subsystem uses only \<open>WatchTree prefix index\<close>: the field holds what that call
  answers. The field \<open>kvcb\<close> of the source always holds \<open>kvdbWatch\<close> itself and
  is left out.
\<close>

record watcher =
  status :: watcherStatus
  cb :: AlertWatcherFunc
  clusterID :: string
  kvdb :: "string \<Rightarrow> nat \<Rightarrow> error option"

text \<open>
  The package-level variables \<open>watcherMap\<close> and \<open>watchErrors\<close>, with two
  histories: the callback invocations made so far (watcher key, alert, action,
  prefix, key) and the \<open>WatchTree\<close> subscriptions made so far (watcher key,
  prefix, start index).
\<close>

record globals =
  watcherMap :: "string \<rightharpoonup> watcher"
  watchErrors :: int
  cbCalls :: "(string \<times> Alert option \<times> AlertActionType \<times> string \<times> string) list"
  watchTreeCalls :: "(string \<times> string \<times> nat) list"

definition subscribeWatch :: "string \<Rightarrow> globals \<Rightarrow> error option \<times> globals" where
  "subscribeWatch key g =
     (let watchIndex = 0 in
      case watcherMap g key of
        None \<Rightarrow> (Some (Errorf (''Failed to find a watch on cluster : '' @ key)), g)
      | Some w \<Rightarrow>
          (kvdb w alertKey watchIndex,
           g\<lparr>watchTreeCalls := watchTreeCalls g @ [(key, alertKey, watchIndex)]\<rparr>))"

text \<open>Invoking the callback of watcher \<open>w\<close>, registered under \<open>key\<close>.\<close>

definition callCb ::
  "string \<Rightarrow> watcher \<Rightarrow> Alert option \<Rightarrow> AlertActionType \<Rightarrow> string \<Rightarrow> string \<Rightarrow> globals
     \<Rightarrow> error option \<times> globals" where
  "callCb key w a act pfx k g =
     (cb w a act pfx k, g\<lparr>cbCalls := cbCalls g @ [(key, a, act, pfx, k)]\<rparr>)"

text \<open>
  \<open>kvdbWatch prefix opaque kvp err\<close>, the callback handed to \<open>WatchTree\<close>. A nil
  \<open>kvp\<close> or a watcher missing from \<open>watcherMap\<close> panics where the source
  dereferences it, and \<open>strings.Split(prefix, "/")[1]\<close> panics on a prefix without
  a slash.
\<close>

definition kvdbWatch ::
  "json \<Rightarrow> string \<Rightarrow> KVPair option \<Rightarrow> error option \<Rightarrow> globals
     \<Rightarrow> error option outcome \<times> globals" where
  "kvdbWatch js pfx kvp err g =
     (case Split pfx CHR ''/'' of
        _ # watcherKey # _ \<Rightarrow>
          (case err of
             Some e \<Rightarrow>
               (case watcherMap g watcherKey of
                  None \<Rightarrow> (Panic, g)
                | Some w \<Rightarrow>
                    if status w = watchBootstrap then
                      (Return (Some e),
                       g\<lparr>watcherMap := (watcherMap g)(watcherKey \<mapsto> w\<lparr>status := watchError\<rparr>)\<rparr>)
                    else if watchErrors g = 5 then
                      (let (_, g1) = callCb watcherKey w None ALERT_ACTION_TYPE_NONE pfx [] g
                       in (Return (Some e), g1))
                    else
                      (let g1 = g\<lparr>watchErrors := watchErrors g + 1\<rparr>;
                           (_, g2) = subscribeWatch watcherKey g1
                       in (Return (Some e), g2)))
           | None \<Rightarrow>
               (case kvp of
                  None \<Rightarrow> (Panic, g)
                | Some p \<Rightarrow>
                    if HasSuffix (Key p) bootstrap then
                      (case watcherMap g watcherKey of
                         None \<Rightarrow> (Panic, g)
                       | Some w \<Rightarrow>
                           (Return None,
                            g\<lparr>watcherMap := (watcherMap g)(watcherKey \<mapsto> w\<lparr>status := watchReady\<rparr>)\<rparr>))
                    else if HasSuffix (Key p) nextAlertIDKey \<or> Contains (Key p) subscriptionsKey
                    then (Return None, g)
                    else
                      (let g1 = g\<lparr>watchErrors := 0\<rparr> in
                       if Action p = KVDelete then
                         (case watcherMap g1 watcherKey of
                            None \<Rightarrow> (Panic, g1)
                          | Some w \<Rightarrow>
                              (let (r, g2) =
                                 callCb watcherKey w None ALERT_ACTION_TYPE_DELETE pfx (Key p) g1
                               in (Return r, g2)))
                       else
                         (case unmarshalAlert js (Value p) zeroAlert of
                            (_, Some _) \<Rightarrow> (Return (Some (Errorf ''Failed to unmarshal Alert'')), g1)
                          | (alert, None) \<Rightarrow>
                              if Action p = KVCreate then
                                (case watcherMap g1 watcherKey of
                                   None \<Rightarrow> (Panic, g1)
                                 | Some w \<Rightarrow>
                                     (let (r, g2) =
                                        callCb watcherKey w (Some alert) ALERT_ACTION_TYPE_CREATE
                                          pfx (Key p) g1
                                      in (Return r, g2)))
                              else if Action p = KVSet then
                                (case watcherMap g1 watcherKey of
                                   None \<Rightarrow> (Panic, g1)
                                 | Some w \<Rightarrow>
                                     (let (r, g2) =
                                        callCb watcherKey w (Some alert) ALERT_ACTION_TYPE_UPDATE
                                          pfx (Key p) g1
                                      in (Return r, g2)))
                              else (Return (Some (Errorf ''Unhandled KV Action'')), g1)))))
      | _ \<Rightarrow> (Panic, g))"

text \<open>
  The store's watch mechanism delivering a sequence of events to \<open>kvdbWatch\<close>, one
  after the other; a panic ends the process.
\<close>

type_synonym watchEvent = "string \<times> KVPair option \<times> error option"

fun deliver ::
  "json \<Rightarrow> watchEvent list \<Rightarrow> globals \<Rightarrow> globals outcome" where
  "deliver js [] g = Return g"
| "deliver js ((pfx, kvp, err) # evs) g =
     (case kvdbWatch js pfx kvp err g of
        (Panic, _) \<Rightarrow> Panic
      | (Return _, g') \<Rightarrow> deliver js evs g')"

section \<open>Notions used in the statements\<close>

text \<open>The cluster a watch event belongs to: the second segment of its prefix, as
  \<open>kvdbWatch\<close> takes it.\<close>

definition watcherKeyOf :: "string \<Rightarrow> string option" where
  "watcherKeyOf pfx = (case Split pfx CHR ''/'' of _ # k # _ \<Rightarrow> Some k | _ \<Rightarrow> None)"

text \<open>A delivery error addressed to a registered watcher that has left the
  bootstrap state.\<close>

definition errorFor :: "(string \<rightharpoonup> watcher) \<Rightarrow> watchEvent \<Rightarrow> bool" where
  "errorFor wm ev =
     (case ev of (pfx, kvp, err) \<Rightarrow>
        err \<noteq> None \<and>
        (case watcherKeyOf pfx of
           None \<Rightarrow> False
         | Some k \<Rightarrow> (case wm k of None \<Rightarrow> False | Some w \<Rightarrow> status w \<noteq> watchBootstrap)))"

text \<open>The resubscription and the give-up notification that an error event leads to.\<close>

definition resubscription :: "watchEvent \<Rightarrow> string \<times> string \<times> nat" where
  "resubscription ev =
     (case watcherKeyOf (fst ev) of
        Some k \<Rightarrow> (k, alertKey, 0)
      | None \<Rightarrow> ([], alertKey, 0))"

definition giveUpCall ::
  "watchEvent \<Rightarrow> string \<times> Alert option \<times> AlertActionType \<times> string \<times> string" where
  "giveUpCall ev =
     (case watcherKeyOf (fst ev) of
        Some k \<Rightarrow> (k, None, ALERT_ACTION_TYPE_NONE, fst ev, [])
      | None \<Rightarrow> ([], None, ALERT_ACTION_TYPE_NONE, fst ev, []))"

text \<open>The store that a call made now finds: the environment's next step applied,
  or nothing when that step makes the call fail.\<close>

definition reached :: "world \<Rightarrow> kvstore option" where
  "reached w =
     (case sched w of
        [] \<Rightarrow> Some (kv w)
      | Interfere f # _ \<Rightarrow> Some (f (kv w))
      | Fault e # _ \<Rightarrow> None)"

text \<open>A reliable store holding \<open>s\<close> and nothing else going on.\<close>

definition frozen :: "kvstore \<Rightarrow> world" where
  "frozen s = \<lparr>kv = s, sched = [], kvIndex = 0, clock = 0, calls = []\<rparr>"

text \<open>The best-effort union of partitions, as the spec words it: every partition
  is enumerated in turn, and one whose enumeration fails contributes nothing.\<close>

fun scanPartitions ::
  "json \<Rightarrow> ResourceType list \<Rightarrow> world \<Rightarrow> Alert option list \<times> world" where
  "scanPartitions js [] w = ([], w)"
| "scanPartitions js (rt # rts) w =
     (let ((alerts, err), w1) = getResourceSpecificAlerts js rt w;
          (others, w2) = scanPartitions js rts w1
      in ((if err = None then alerts else []) @ others, w2))"

text \<open>A sequence of store calls made of failed allocation attempts: a read of the
  counter followed by a compare-and-set on it, any number of times.\<close>

fun attempts :: "kvCall list \<Rightarrow> bool" where
  "attempts [] = True"
| "attempts (CallGet k # CallCompareAndSet k' v p # rest) =
     (k = getNextAlertIDKey \<and> k' = getNextAlertIDKey \<and> attempts rest)"
| "attempts _ = False"

text \<open>An environment that makes calls fail but writes nothing itself.\<close>

fun isFault :: "envStep \<Rightarrow> bool" where
  "isFault (Fault e) = True"
| "isFault (Interfere f) = False"

text \<open>
  What holds of concurrent allocations on a fresh namespace once \<open>N\<close> of them
  have succeeded: the counter is absent when \<open>N\<close> is zero and holds \<open>N\<close>
  otherwise, the identifiers handed out are below \<open>N\<close> and pairwise distinct,
  and a caller about to compare-and-set holds a pair of the counter key with
  the number it has decoded from it.
\<close>

definition allocInv :: "json \<Rightarrow> conc \<Rightarrow> nat \<Rightarrow> bool" where
  "allocInv js c N \<longleftrightarrow>
     (\<forall>st \<in> set (sched (shared c)). isFault st) \<and>
     (N = 0 \<longrightarrow> map_of (kv (shared c)) getNextAlertIDKey = None) \<and>
     (0 < N \<longrightarrow> (\<exists>t. map_of (kv (shared c)) getNextAlertIDKey =
                         Some (FormatInt (word_of_nat N), t))) \<and>
     (\<forall>p i. procs c p = Returned i None \<longrightarrow> unat i < N) \<and>
     (\<forall>p q i j. p \<noteq> q \<and> procs c p = Returned i None \<and> procs c q = Returned j None \<longrightarrow> i \<noteq> j) \<and>
     (\<forall>p kvp m. procs c p = AtCompareAndSet kvp m \<longrightarrow>
        Key kvp = getNextAlertIDKey \<and> (\<exists>x. unmarshalInt js (Value kvp) x = (m, None)))"

section \<open>Sample data\<close>

text \<open>A codec for the examples: decimal numbers, and alerts written as JSON
  objects and read back from a table of known alerts.\<close>

definition digitVal :: "char \<Rightarrow> nat option" where
  "digitVal c = (let n = of_char c in if 48 \<le> n \<and> n \<le> (57::nat) then Some (n - 48) else None)"

fun parseDigits :: "string \<Rightarrow> nat \<Rightarrow> nat option" where
  "parseDigits [] acc = Some acc"
| "parseDigits (c # cs) acc =
     (case digitVal c of None \<Rightarrow> None | Some d \<Rightarrow> parseDigits cs (10 * acc + d))"

definition exUnmarshalInt :: "int64 unmarshal" where
  "exUnmarshalInt b v =
     (case b of
        [] \<Rightarrow> (v, Some (ExtError ''unexpected end of JSON input''))
      | c # ds \<Rightarrow>
          if c = CHR ''-'' then
            (case (if ds = [] then None else parseDigits ds 0) of
               Some n \<Rightarrow> (- word_of_nat n, None)
             | None \<Rightarrow> (v, Some (ExtError ''invalid character'')))
          else
            (case parseDigits b 0 of
               Some n \<Rightarrow> (word_of_nat n, None)
             | None \<Rightarrow> (v, Some (ExtError ''invalid character''))))"

definition exAlert :: "int64 \<Rightarrow> int \<Rightarrow> int64 \<Rightarrow> ResourceType \<Rightarrow> bool \<Rightarrow> Alert" where
  "exAlert i sev ty rt c =
     \<lparr>Id = i, Severity = sev, AlertType = ty, Message = [], Timestamp = 100, ResourceId = [],
      Resource = rt, Cleared = c, Ttl = 0\<rparr>"

definition exMarshalAlert :: "Alert \<Rightarrow> bytes" where
  \<open>exMarshalAlert a =
     ''{"id":'' @ FormatInt (Id a) @
     '',"severity":'' @ FormatNat (nat (Severity a)) @
     '',"alert_type":'' @ FormatInt (AlertType a) @
     '',"timestamp":'' @ FormatInt (Timestamp a) @
     '',"resource":'' @
       (case Resource a of RESOURCE_TYPE_NONE \<Rightarrow> ''0'' | RESOURCE_TYPE_VOLUME \<Rightarrow> ''1''
        | RESOURCE_TYPE_NODE \<Rightarrow> ''2'' | RESOURCE_TYPE_CLUSTER \<Rightarrow> ''3''
        | RESOURCE_TYPE_DRIVE \<Rightarrow> ''4'') @
     '',"cleared":'' @ (if Cleared a then ''true'' else ''false'') @ ''}''\<close>

definition exKnownAlerts :: "Alert list" where
  "exKnownAlerts =
     [exAlert 0 1 7 RESOURCE_TYPE_NODE False, exAlert 0 1 7 RESOURCE_TYPE_NODE True,
      exAlert 1 3 7 RESOURCE_TYPE_VOLUME False, exAlert 2 2 9 RESOURCE_TYPE_CLUSTER False,
      exAlert 0 1 8 RESOURCE_TYPE_NODE False]"

definition exUnmarshalAlert :: "Alert unmarshal" where
  "exUnmarshalAlert b v =
     (case find (\<lambda>a. exMarshalAlert a = b) exKnownAlerts of
        Some a \<Rightarrow> (a, None)
      | None \<Rightarrow> (v, Some (ExtError ''invalid character'')))"

text \<open>Decoding into a pointer: \<open>null\<close> gives nil, anything else is decoded into a
  new alert.\<close>

definition exUnmarshalAlertPtr :: "(Alert option) unmarshal" where
  "exUnmarshalAlertPtr b v =
     (if b = ''null'' then (None, None)
      else
        (case exUnmarshalAlert b zeroAlert of
           (a, None) \<Rightarrow> (Some a, None)
         | (_, Some e) \<Rightarrow> (v, Some e)))"

definition exUnmarshalAlerts :: "(Alert list) unmarshal" where
  "exUnmarshalAlerts b v =
     (if b = ''['' @ exMarshalAlert (exAlert 0 1 8 RESOURCE_TYPE_NODE False) @ '']''
      then ([exAlert 0 1 8 RESOURCE_TYPE_NODE False], None)
      else (v, Some (ExtError ''invalid character'')))"

definition exUnmarshalClusterInfo :: "ClusterInfo unmarshal" where
  \<open>exUnmarshalClusterInfo b db =
     (if b = ''{"Status":2}'' then (db\<lparr>Status := STATUS_OK\<rparr>, None)
      else (db, Some (ExtError ''invalid character'')))\<close>

definition exCodec :: json where
  "exCodec = \<lparr>unmarshalInt = exUnmarshalInt, unmarshalAlert = exUnmarshalAlert,
     unmarshalAlertPtr = exUnmarshalAlertPtr, unmarshalAlerts = exUnmarshalAlerts, unmarshalClusterInfo = exUnmarshalClusterInfo,
     marshalAlert = exMarshalAlert\<rparr>"

text \<open>A store with three alerts and a counter, one with a subscription list, and
  one with a cluster record.\<close>

definition exStore :: kvstore where
  "exStore =
     [(''alert/nextAlertId'', ''3'', 0),
      (''alert/node/0'', exMarshalAlert (exAlert 0 1 7 RESOURCE_TYPE_NODE False), 0),
      (''alert/volume/1'', exMarshalAlert (exAlert 1 3 7 RESOURCE_TYPE_VOLUME False), 0),
      (''alert/cluster/2'', exMarshalAlert (exAlert 2 2 9 RESOURCE_TYPE_CLUSTER False), 0)]"


definition exSubscriptions :: kvstore where
  "exSubscriptions =
     [(''alert/subscriptions/7'',
       ''['' @ exMarshalAlert (exAlert 0 1 8 RESOURCE_TYPE_NODE False) @ '']'', 0)]"

definition exWorld :: "kvstore \<Rightarrow> envStep list \<Rightarrow> world" where
  "exWorld s steps = \<lparr>kv = s, sched = steps, kvIndex = 4, clock = 100, calls = []\<rparr>"

definition exClusterWorld :: "envStep list \<Rightarrow> world" where
  \<open>exClusterWorld steps =
     \<lparr>kv = [(''cluster/database'', ''{"Status":2}'', 0)], sched = steps, kvIndex = 7,
      clock = 0, calls = []\<rparr>\<close>

text \<open>Two interfering writers: one allocates an identifier, one resets the
  cluster record.\<close>

definition exBump :: "kvstore \<Rightarrow> kvstore" where
  "exBump s = setKey ''alert/nextAlertId'' (''4'', 0) s"

definition exWipe :: "kvstore \<Rightarrow> kvstore" where
  "exWipe s = setKey ''cluster/database'' (''{}'', 0) s"

text \<open>Two clusters with a watcher each, and the events delivered to them.\<close>

definition cbNil :: AlertWatcherFunc where
  "cbNil a act pfx k = None"

definition watchTreeOk :: "string \<Rightarrow> nat \<Rightarrow> error option" where
  "watchTreeOk p i = None"

definition exWatcher :: "watcherStatus \<Rightarrow> watcher" where
  "exWatcher st = \<lparr>status = st, cb = cbNil, clusterID = [], kvdb = watchTreeOk\<rparr>"

definition exGlobals :: "watcherStatus \<Rightarrow> globals" where
  "exGlobals st =
     \<lparr>watcherMap = [''c2'' \<mapsto> exWatcher watchReady, ''c1'' \<mapsto> exWatcher st],
      watchErrors = 0, cbCalls = [], watchTreeCalls = []\<rparr>"

definition exError :: "string \<Rightarrow> watchEvent" where
  "exError c = (''openstorage/'' @ c @ ''/alert/'', None, Some (ExtError ''watch stopped''))"

definition exBootstrapPair :: KVPair where
  "exBootstrapPair = \<lparr>Key = ''alert/bootstrap'', Value = ''0'', Action = KVSet, TTL = 0\<rparr>"

definition exAlertPair :: KVPair where
  "exAlertPair = \<lparr>Key = ''alert/node/3'', Value = ''{}'', Action = KVDelete, TTL = 0\<rparr>"

section \<open>Properties of the watch subsystem\<close>

lemmas key_defs = alertKey_def subscriptionsKey_def nextAlertIDKey_def clusterKey_def
  volumeKey_def nodeKey_def driveKey_def bootstrap_def

lemmas ex_defs = cbNil_def watchTreeOk_def exWatcher_def exGlobals_def exError_def
  exBootstrapPair_def exAlertPair_def

lemma watcherKeyOf_Some:
  "watcherKeyOf pfx = Some k \<Longrightarrow> \<exists>s0 rest. Split pfx CHR ''/'' = s0 # k # rest"
  by (auto simp: watcherKeyOf_def split: list.splits)

lemma kvdbWatch_error_count:
  assumes "watcherKeyOf pfx = Some watcherKey"
      and "watcherMap g watcherKey = Some w"
      and "status w \<noteq> watchBootstrap" and "watchErrors g \<noteq> 5"
  shows "kvdbWatch js pfx kvp (Some e) g =
           (Return (Some e), g\<lparr>watchErrors := watchErrors g + 1,
              watchTreeCalls := watchTreeCalls g @ [(watcherKey, alertKey, 0)]\<rparr>)"
  using watcherKeyOf_Some[OF assms(1)] assms(2-) by (auto simp add: kvdbWatch_def subscribeWatch_def)

lemma kvdbWatch_error_giveup:
  assumes "watcherKeyOf pfx = Some watcherKey"
      and "watcherMap g watcherKey = Some w"
      and "status w \<noteq> watchBootstrap" and "watchErrors g = 5"
  shows "kvdbWatch js pfx kvp (Some e) g =
           (Return (Some e), g\<lparr>cbCalls := cbCalls g @ [(watcherKey, None, ALERT_ACTION_TYPE_NONE, pfx, [])]\<rparr>)"
  using watcherKeyOf_Some[OF assms(1)] assms(2-) by (auto simp add: kvdbWatch_def callCb_def)

lemma deliver_errors:
  assumes "\<forall>ev \<in> set evs. errorFor (watcherMap g) ev"
      and "watchErrors g = int c" and "c \<le> 5"
  shows "deliver js evs g =
           Return (g\<lparr>watchErrors := int (min 5 (c + length evs)),
                     cbCalls := cbCalls g @ map giveUpCall (drop (5 - c) evs),
                     watchTreeCalls := watchTreeCalls g @ map resubscription (take (5 - c) evs)\<rparr>)"
  using assms
proof (induction evs arbitrary: g c)
  case Nil
  then show ?case by simp
next
  case (Cons ev evs)
  obtain pfx kvp err where ev: "ev = (pfx, kvp, err)" by (cases ev)
  from Cons.prems(1) ev obtain e k w where
    e: "err = Some e" and k: "watcherKeyOf pfx = Some k"
    and w: "watcherMap g k = Some w" "status w \<noteq> watchBootstrap"
    by (auto simp: errorFor_def split: option.splits)
  show ?case
  proof (cases "c = 5")
    case True
    let ?g1 = "g\<lparr>cbCalls := cbCalls g @ [(k, None, ALERT_ACTION_TYPE_NONE, pfx, [])]\<rparr>"
    have step: "kvdbWatch js pfx kvp (Some e) g = (Return (Some e), ?g1)"
      using kvdbWatch_error_giveup[OF k w] Cons.prems(2) True by simp
    have "deliver js evs ?g1 =
           Return (?g1\<lparr>watchErrors := int (min 5 (c + length evs)),
                     cbCalls := cbCalls ?g1 @ map giveUpCall (drop (5 - c) evs),
                     watchTreeCalls := watchTreeCalls ?g1 @ map resubscription (take (5 - c) evs)\<rparr>)"
      using Cons.prems by (intro Cons.IH) auto
    then show ?thesis
      using step True ev e k by (simp add: giveUpCall_def)
  next
    case False
    then have c: "c < 5" using Cons.prems(3) by simp
    let ?g1 = "g\<lparr>watchErrors := watchErrors g + 1,
              watchTreeCalls := watchTreeCalls g @ [(k, alertKey, 0)]\<rparr>"
    have step: "kvdbWatch js pfx kvp (Some e) g = (Return (Some e), ?g1)"
      using kvdbWatch_error_count[OF k w] Cons.prems(2) c by simp
    have "deliver js evs ?g1 =
           Return (?g1\<lparr>watchErrors := int (min 5 (Suc c + length evs)),
                     cbCalls := cbCalls ?g1 @ map giveUpCall (drop (5 - Suc c) evs),
                     watchTreeCalls := watchTreeCalls ?g1 @ map resubscription (take (5 - Suc c) evs)\<rparr>)"
      using Cons.prems c by (intro Cons.IH) auto
    moreover have "5 - c = Suc (5 - Suc c)" using c by simp
    ultimately show ?thesis
      using step ev e k by (simp add: resubscription_def)
  qed
qed

text \<open>
  Claim C10. An error-free watch event whose key ends with the bootstrap marker
  sets the status of the watcher of the event's cluster to \<open>watchReady\<close>,
  whatever the status was (bootstrap, ready or error), and returns nil at once:
  no callback is invoked, and the error counter and the subscriptions stay as
  they were. The watcher is registered under the cluster of the prefix (the
  source dereferences it).
\<close>

theorem bootstrap_mutation_sets_ready:
  assumes "watcherKeyOf pfx = Some key"
      and "watcherMap g key = Some w"
      and "HasSuffix (Key p) bootstrap"
  shows "kvdbWatch js pfx (Some p) None g =
           (Return None, g\<lparr>watcherMap := (watcherMap g)(key \<mapsto> w\<lparr>status := watchReady\<rparr>)\<rparr>)"
  using watcherKeyOf_Some[OF assms(1)] assms(2-) by (auto simp add: kvdbWatch_def)

text \<open>The bootstrap marker seen by a watcher of cluster \<open>c1\<close> that is in the error
  state.\<close>

theorem bootstrap_mutation_sets_ready_witness:
  "kvdbWatch exCodec ''openstorage/c1/alert/'' (Some exBootstrapPair) None (exGlobals watchError)
     = (Return None, exGlobals watchReady)"
  using bootstrap_mutation_sets_ready [of "''openstorage/c1/alert/''" "''c1''"
      "exGlobals watchError" "exWatcher watchError" exBootstrapPair exCodec]
  by (simp add: ex_defs watcherKeyOf_def HasSuffix_def key_defs)

text \<open>
  Claim C3, as stated, fails: five consecutive delivery errors for a ready
  watcher, counted from zero, invoke the callback not once but never.
\<close>

theorem five_errors_no_callback:
  "map_outcome cbCalls
     (deliver exCodec
        [exError ''c1'', exError ''c1'', exError ''c1'', exError ''c1'', exError ''c1'']
        (exGlobals watchReady)) = Return []"
  by (simp add: ex_defs kvdbWatch_def subscribeWatch_def callCb_def)

text \<open>
  Claim C3, amended. A ready watcher, with the error counter at zero, receives
  consecutive delivery errors. Each of the first five triggers exactly one
  resubscription of the tree-watch and no callback; the sixth invokes the
  registered callback once, with a nil alert and the action
  \<open>ALERT_ACTION_TYPE_NONE\<close>, and resubscribes no more. \<open>kvdbWatch\<close> stops
  nothing itself: it returns the error every time, and each further error
  delivered invokes the callback again. So \<open>n\<close> errors give \<open>min 5 n\<close>
  resubscriptions and \<open>n - 5\<close> callback invocations.
\<close>

theorem ready_watcher_error_budget:
  assumes "watcherKeyOf pfx = Some key"
      and "watcherMap g key = Some w" and "status w = watchReady"
      and "watchErrors g = 0"
      and "\<forall>ev \<in> set evs. fst ev = pfx \<and> snd (snd ev) \<noteq> None"
  shows "deliver js evs g =
           Return (g\<lparr>watchErrors := int (min 5 (length evs)),
                     cbCalls := cbCalls g @
                       replicate (length evs - 5) (key, None, ALERT_ACTION_TYPE_NONE, pfx, []),
                     watchTreeCalls := watchTreeCalls g @
                       replicate (min 5 (length evs)) (key, alertKey, 0)\<rparr>)"
proof -
  have ok: "\<forall>ev \<in> set evs. errorFor (watcherMap g) ev"
    using assms by (auto simp: errorFor_def)
  have a: "map giveUpCall (drop 5 evs) =
             replicate (length evs - 5) (key, None, ALERT_ACTION_TYPE_NONE, pfx, [])"
  proof -
    have "map giveUpCall (drop 5 evs) =
            map (\<lambda>ev. (key, None, ALERT_ACTION_TYPE_NONE, pfx, [])) (drop 5 evs)"
      using assms(1,5) by (intro map_cong) (auto simp: giveUpCall_def dest!: in_set_dropD)
    then show ?thesis by (simp add: map_replicate_const)
  qed
  have b: "map resubscription (take 5 evs) = replicate (min 5 (length evs)) (key, alertKey, 0)"
  proof -
    have "map resubscription (take 5 evs) = map (\<lambda>ev. (key, alertKey, 0)) (take 5 evs)"
      using assms(1,5) by (intro map_cong) (auto simp: resubscription_def dest!: in_set_takeD)
    then show ?thesis by (simp add: map_replicate_const min.commute)
  qed
  show ?thesis
    using deliver_errors [OF ok, of 0 js] assms(4) a b by simp
qed

text \<open>Six errors for the ready watcher of cluster \<open>c1\<close>.\<close>

theorem ready_watcher_error_budget_witness:
  "deliver exCodec
     [exError ''c1'', exError ''c1'', exError ''c1'', exError ''c1'', exError ''c1'', exError ''c1'']
     (exGlobals watchReady) =
   Return ((exGlobals watchReady)
     \<lparr>watchErrors := 5,
      cbCalls := [(''c1'', None, ALERT_ACTION_TYPE_NONE, ''openstorage/c1/alert/'', [])],
      watchTreeCalls := [(''c1'', alertKey, 0), (''c1'', alertKey, 0), (''c1'', alertKey, 0),
        (''c1'', alertKey, 0), (''c1'', alertKey, 0)]\<rparr>)"
  using ready_watcher_error_budget [of "''openstorage/c1/alert/''" "''c1''"
      "exGlobals watchReady" "exWatcher watchReady"
      "[exError ''c1'', exError ''c1'', exError ''c1'', exError ''c1'', exError ''c1'', exError ''c1'']"
      exCodec]
  by (simp add: ex_defs watcherKeyOf_def)

text \<open>
  Claim C9. The counter of consecutive watch errors is one variable of the
  process, not one per watcher. Errors addressed to watchers of any clusters
  (each registered and past its bootstrap) add up in it: after a sequence of
  them within the budget it has grown by their number, with no callback. Once
  it reads 5, the next error, on whichever cluster it arrives, invokes the
  callback of that cluster's watcher with a nil alert and the no-op action. A
  successful mutation that is neither the bootstrap marker nor an ignored key,
  on any cluster, sets it back to zero.
\<close>

theorem watchErrors_shared_by_all_clusters:
  assumes "\<forall>ev \<in> set evs. errorFor (watcherMap g) ev"
      and "watchErrors g = int c" and "c + length evs \<le> 5"
  shows "\<exists>g'. deliver js evs g = Return g' \<and> watcherMap g' = watcherMap g \<and>
           cbCalls g' = cbCalls g \<and> watchErrors g' = watchErrors g + int (length evs) \<and>
           (\<forall>pfx kvp e. errorFor (watcherMap g) (pfx, kvp, Some e) \<and> watchErrors g' = 5 \<longrightarrow>
              cbCalls (snd (kvdbWatch js pfx kvp (Some e) g')) =
                cbCalls g @ [giveUpCall (pfx, kvp, Some e)]) \<and>
           (\<forall>pfx p. watcherKeyOf pfx \<noteq> None \<and> \<not> HasSuffix (Key p) bootstrap \<and>
                \<not> HasSuffix (Key p) nextAlertIDKey \<and> \<not> Contains (Key p) subscriptionsKey \<longrightarrow>
              watchErrors (snd (kvdbWatch js pfx (Some p) None g')) = 0)"
proof -
  let ?g' = "g\<lparr>watchErrors := int (c + length evs),
               watchTreeCalls := watchTreeCalls g @ map resubscription evs\<rparr>"
  have c5: "c \<le> 5" using assms(3) by simp
  have d: "deliver js evs g = Return ?g'"
    using deliver_errors [OF assms(1,2) c5, of js] assms(3) by simp
  have giveup: "cbCalls (snd (kvdbWatch js pfx kvp (Some e) ?g')) =
                  cbCalls g @ [giveUpCall (pfx, kvp, Some e)]"
    if "errorFor (watcherMap g) (pfx, kvp, Some e)" "watchErrors ?g' = 5" for pfx kvp e
  proof -
    from that(1) obtain k w where k: "watcherKeyOf pfx = Some k"
      and w: "watcherMap ?g' k = Some w" "status w \<noteq> watchBootstrap"
      by (auto simp: errorFor_def split: option.splits)
    show ?thesis
      using kvdbWatch_error_giveup [OF k w that(2)] k by (simp add: giveUpCall_def)
  qed
  have reset: "watchErrors (snd (kvdbWatch js pfx (Some p) None ?g')) = 0"
    if "watcherKeyOf pfx \<noteq> None" "\<not> HasSuffix (Key p) bootstrap"
       "\<not> HasSuffix (Key p) nextAlertIDKey" "\<not> Contains (Key p) subscriptionsKey" for pfx p
  proof -
    from that(1) obtain s0 k rest where "Split pfx CHR ''/'' = s0 # k # rest"
      by (auto dest: watcherKeyOf_Some)
    then show ?thesis
      using that(2-)
      by (auto simp: kvdbWatch_def callCb_def Let_def split: option.splits sum.splits prod.splits)
  qed
  show ?thesis
    using d giveup reset assms(2) by (intro exI [of _ ?g']) auto
qed

text \<open>Three errors on cluster \<open>c1\<close> and two on \<open>c2\<close> exhaust the budget; the next
  error on \<open>c2\<close> notifies the watcher of \<open>c2\<close>, and a deletion seen on \<open>c1\<close>
  resets the counter.\<close>

theorem watchErrors_shared_by_all_clusters_witness:
  "\<exists>g'. deliver exCodec
           [exError ''c1'', exError ''c1'', exError ''c1'', exError ''c2'', exError ''c2'']
           (exGlobals watchReady) = Return g' \<and>
         watchErrors g' = 5 \<and>
         cbCalls (snd (kvdbWatch exCodec ''openstorage/c2/alert/'' None
                        (Some (ExtError ''watch stopped'')) g')) =
           [(''c2'', None, ALERT_ACTION_TYPE_NONE, ''openstorage/c2/alert/'', [])] \<and>
         watchErrors (snd (kvdbWatch exCodec ''openstorage/c1/alert/''
                        (Some exAlertPair) None g')) = 0"
proof -
  let ?evs = "[exError ''c1'', exError ''c1'', exError ''c1'', exError ''c2'', exError ''c2'']"
  have h1: "\<forall>ev \<in> set ?evs. errorFor (watcherMap (exGlobals watchReady)) ev"
    by (simp add: ex_defs errorFor_def watcherKeyOf_def)
  have h2: "watchErrors (exGlobals watchReady) = int 0"
    by (simp add: ex_defs)
  have h3: "0 + length ?evs \<le> 5" by simp
  from watchErrors_shared_by_all_clusters [OF h1 h2 h3, of exCodec]
  obtain g' where g': "deliver exCodec ?evs (exGlobals watchReady) = Return g'"
    "watchErrors g' = watchErrors (exGlobals watchReady) + int (length ?evs)"
    and gu: "\<And>pfx kvp e. errorFor (watcherMap (exGlobals watchReady)) (pfx, kvp, Some e) \<and>
               watchErrors g' = 5 \<Longrightarrow>
              cbCalls (snd (kvdbWatch exCodec pfx kvp (Some e) g')) =
                cbCalls (exGlobals watchReady) @ [giveUpCall (pfx, kvp, Some e)]"
    and rs: "\<And>pfx p. watcherKeyOf pfx \<noteq> None \<and> \<not> HasSuffix (Key p) bootstrap \<and>
                \<not> HasSuffix (Key p) nextAlertIDKey \<and> \<not> Contains (Key p) subscriptionsKey \<Longrightarrow>
              watchErrors (snd (kvdbWatch exCodec pfx (Some p) None g')) = 0"
    by blast
  have five: "watchErrors g' = 5" using g'(2) by (simp add: ex_defs)
  have a: "cbCalls (snd (kvdbWatch exCodec ''openstorage/c2/alert/'' None
                        (Some (ExtError ''watch stopped'')) g')) =
           [(''c2'', None, ALERT_ACTION_TYPE_NONE, ''openstorage/c2/alert/'', [])]"
    using gu [of "''openstorage/c2/alert/''" None "ExtError ''watch stopped''"] five
    by (simp add: ex_defs errorFor_def watcherKeyOf_def giveUpCall_def)
  have b: "watchErrors (snd (kvdbWatch exCodec ''openstorage/c1/alert/''
                        (Some exAlertPair) None g')) = 0"
    using rs [of "''openstorage/c1/alert/''" exAlertPair]
    by (simp add: ex_defs watcherKeyOf_def HasSuffix_def key_defs)
  show ?thesis using g'(1) five a b by blast
qed

section \<open>Properties of the cluster state store\<close>

lemma enter_reached:
  "reached w = Some s \<Longrightarrow> \<exists>w1. enter c w = (None, w1) \<and> kv w1 = s \<and> sched w1 = tl (sched w)
      \<and> calls w1 = calls w @ [c] \<and> clock w1 = clock w"
  by (auto simp: reached_def enter_def Let_def split: list.splits envStep.splits)

lemma enter_calls: "enter c w = (r, w1) \<Longrightarrow> calls w1 = calls w @ [c]"
  by (auto simp: enter_def Let_def split: list.splits envStep.splits)

lemma enter_sched: "enter c w = (r, w1) \<Longrightarrow> sched w1 = tl (sched w)"
  by (auto simp: enter_def Let_def split: list.splits envStep.splits)

lemma enter_quiet:
  "sched w = [] \<Longrightarrow> enter c w = (None, w\<lparr>calls := calls w @ [c]\<rparr>)"
  by (simp add: enter_def)

lemma HasPrefix_Nil [simp]: "HasPrefix k []"
  by (simp add: HasPrefix_def)

text \<open>
  Claim C6. When the store that \<open>readClusterInfo\<close> reads has no cluster key, or
  holds the bytes \<open>{}\<close> under it, the result is the descriptor with status
  \<open>STATUS_INIT\<close> and no node entries, and no error.
\<close>

theorem readClusterInfo_uninitialized:
  assumes "reached w = Some s"
      and "map_of s ClusterDBKey = None \<or> (\<exists>ttl. map_of s ClusterDBKey = Some (''{}'', ttl))"
  shows "fst (readClusterInfo js w) = (\<lparr>Status = STATUS_INIT, NodeEntries = Map.empty\<rparr>, None)"
proof -
  from enter_reached [OF assms(1)] obtain w1 where
    w1: "enter (CallGet ClusterDBKey) w = (None, w1)" "kv w1 = s" by blast
  from assms(2) show ?thesis
  proof
    assume "map_of s ClusterDBKey = None"
    then show ?thesis using w1 by (simp add: readClusterInfo_def kvGet_def)
  next
    assume "\<exists>ttl. map_of s ClusterDBKey = Some (''{}'', ttl)"
    then show ?thesis using w1 by (auto simp add: readClusterInfo_def kvGet_def pairOf_def)
  qed
qed

text \<open>A cluster record that another client has just reset to \<open>{}\<close>.\<close>

theorem readClusterInfo_uninitialized_witness:
  "fst (readClusterInfo exCodec (exClusterWorld [Interfere exWipe])) =
     (\<lparr>Status = STATUS_INIT, NodeEntries = Map.empty\<rparr>, None)"
  using readClusterInfo_uninitialized [of "exClusterWorld [Interfere exWipe]"
      "[(''cluster/database'', ''{}'', 0)]" exCodec]
  by (simp add: reached_def exClusterWorld_def exWipe_def ClusterDBKey_def)

text \<open>
  Claim C7. \<open>snapAndReadClusterInfo\<close> first takes the snapshot, then starts the
  collector at the snapshot's version, then reads the cluster key from the
  snapshot. A failure of the snapshot is returned with no state after that one
  call, and a failure of the collector after those two calls: the snapshot is
  not read, and the decoder plays no part. When the three calls go through, the
  state carries the snapshot as taken by the first call, its version, the
  collector bound to that version, and the descriptor and error that
  \<open>readClusterInfo\<close> gives on the frozen snapshot, whatever has happened to the
  live store since.
\<close>

theorem snapAndReadClusterInfo_order:
  assumes "enter (CallSnapshot []) w = (o1, wa)"
      and "enter (CallNewUpdatesCollector [] (kvIndex wa)) wa = (o2, wb)"
      and "enter (CallSnapshotGet ClusterDBKey) wb = (o3, wc)"
  shows "(\<forall>e. o1 = Some e \<longrightarrow>
            snapAndReadClusterInfo js w = ((None, Some e), wa) \<and>
            calls wa = calls w @ [CallSnapshot []]) \<and>
         (\<forall>e. o1 = None \<and> o2 = Some e \<longrightarrow>
            snapAndReadClusterInfo js w = ((None, Some e), wb) \<and>
            calls wb = calls w @ [CallSnapshot [], CallNewUpdatesCollector [] (kvIndex wa)]) \<and>
         (o1 = None \<and> o2 = None \<and> o3 = None \<longrightarrow>
            (\<exists>ci err.
               fst (readClusterInfo js (frozen (kv wa))) = (ci, err) \<and>
               snapAndReadClusterInfo js w =
                 ((Some \<lparr>ClusterInfo = ci, InitDb = kv wa, Version = kvIndex wa,
                         Collector = \<lparr>collectorPrefix = [], startIndex = kvIndex wa\<rparr>\<rparr>, err), wc) \<and>
               calls wc = calls w @ [CallSnapshot [], CallNewUpdatesCollector [] (kvIndex wa),
                                     CallSnapshotGet ClusterDBKey]))"
proof (intro conjI allI impI)
  fix e assume "o1 = Some e"
  then show "snapAndReadClusterInfo js w = ((None, Some e), wa)"
    using assms(1) by (simp add: snapAndReadClusterInfo_def kvSnapshot_def)
  show "calls wa = calls w @ [CallSnapshot []]" using enter_calls [OF assms(1)] .
next
  fix e assume "o1 = None \<and> o2 = Some e"
  then show "snapAndReadClusterInfo js w = ((None, Some e), wb)"
    using assms(1,2)
    by (simp add: snapAndReadClusterInfo_def kvSnapshot_def NewUpdatesCollector_def)
  show "calls wb = calls w @ [CallSnapshot [], CallNewUpdatesCollector [] (kvIndex wa)]"
    using enter_calls [OF assms(1)] enter_calls [OF assms(2)] by simp
next
  assume h: "o1 = None \<and> o2 = None \<and> o3 = None"
  have c: "calls wc = calls w @ [CallSnapshot [], CallNewUpdatesCollector [] (kvIndex wa),
                                     CallSnapshotGet ClusterDBKey]"
    using enter_calls [OF assms(1)] enter_calls [OF assms(2)] enter_calls [OF assms(3)] by simp
  have f: "enter (CallGet ClusterDBKey) (frozen (kv wa)) =
             (None, (frozen (kv wa))\<lparr>calls := [CallGet ClusterDBKey]\<rparr>)"
    by (simp add: enter_def frozen_def)
  have k: "kv ((frozen (kv wa))\<lparr>calls := [CallGet ClusterDBKey]\<rparr>) = kv wa"
    by (simp add: frozen_def)
  show "\<exists>ci err.
               fst (readClusterInfo js (frozen (kv wa))) = (ci, err) \<and>
               snapAndReadClusterInfo js w =
                 ((Some \<lparr>ClusterInfo = ci, InitDb = kv wa, Version = kvIndex wa,
                         Collector = \<lparr>collectorPrefix = [], startIndex = kvIndex wa\<rparr>\<rparr>, err), wc) \<and>
               calls wc = calls w @ [CallSnapshot [], CallNewUpdatesCollector [] (kvIndex wa),
                                     CallSnapshotGet ClusterDBKey]"
    using h assms c f k
    by (cases "map_of (kv wa) ClusterDBKey")
       (auto simp add: snapAndReadClusterInfo_def kvSnapshot_def NewUpdatesCollector_def
          snapshotGet_def readClusterInfo_def kvGet_def Let_def pairOf_def
          split: prod.splits option.splits)
qed

text \<open>A run in which the cluster record is reset after the snapshot was taken, one
  in which the collector fails, and one in which the snapshot fails.\<close>

theorem snapAndReadClusterInfo_order_witness:
  "snapAndReadClusterInfo exCodec
     (exClusterWorld [Interfere id, Interfere id, Interfere exWipe]) =
   ((Some \<lparr>ClusterInfo = \<lparr>Status = STATUS_OK, NodeEntries = Map.empty\<rparr>,
           InitDb = kv (exClusterWorld []), Version = 8,
           Collector = \<lparr>collectorPrefix = [], startIndex = 8\<rparr>\<rparr>, None),
    \<lparr>kv = [(''cluster/database'', ''{}'', 0)], sched = [], kvIndex = 10, clock = 0,
      calls = [CallSnapshot [], CallNewUpdatesCollector [] 8, CallSnapshotGet ClusterDBKey]\<rparr>)
   \<and> snapAndReadClusterInfo exCodec (exClusterWorld [Interfere id, Fault (ExtError ''timeout'')]) =
   ((None, Some (ExtError ''timeout'')),
    \<lparr>kv = kv (exClusterWorld []), sched = [], kvIndex = 8, clock = 0,
      calls = [CallSnapshot [], CallNewUpdatesCollector [] 8]\<rparr>)
   \<and> snapAndReadClusterInfo exCodec (exClusterWorld [Fault (ExtError ''timeout'')]) =
   ((None, Some (ExtError ''timeout'')),
    \<lparr>kv = kv (exClusterWorld []), sched = [], kvIndex = 7, clock = 0,
      calls = [CallSnapshot []]\<rparr>)"
proof -
  let ?w = "exClusterWorld [Interfere id, Interfere id, Interfere exWipe]"
  let ?wa = "\<lparr>kv = kv (exClusterWorld []), sched = [Interfere id, Interfere exWipe], kvIndex = 8,
      clock = 0, calls = [CallSnapshot []]\<rparr>"
  let ?wb = "\<lparr>kv = kv (exClusterWorld []), sched = [Interfere exWipe], kvIndex = 9,
      clock = 0, calls = [CallSnapshot [], CallNewUpdatesCollector [] 8]\<rparr>"
  let ?wc = "\<lparr>kv = [(''cluster/database'', ''{}'', 0)], sched = [], kvIndex = 10, clock = 0,
      calls = [CallSnapshot [], CallNewUpdatesCollector [] 8, CallSnapshotGet ClusterDBKey]\<rparr>"
  have a: "enter (CallSnapshot []) ?w = (None, ?wa)"
    by (simp add: enter_def exClusterWorld_def)
  have b: "enter (CallNewUpdatesCollector [] (kvIndex ?wa)) ?wa = (None, ?wb)"
    by (simp add: enter_def exClusterWorld_def)
  have c: "enter (CallSnapshotGet ClusterDBKey) ?wb = (None, ?wc)"
    by (simp add: enter_def exClusterWorld_def exWipe_def)
  have r: "fst (readClusterInfo exCodec (frozen (kv ?wa))) =
             (\<lparr>Status = STATUS_OK, NodeEntries = Map.empty\<rparr>, None)"
    by (simp add: readClusterInfo_def kvGet_def enter_def frozen_def exClusterWorld_def
        ClusterDBKey_def pairOf_def exCodec_def exUnmarshalClusterInfo_def)
  have 1: "snapAndReadClusterInfo exCodec ?w =
   ((Some \<lparr>ClusterInfo = \<lparr>Status = STATUS_OK, NodeEntries = Map.empty\<rparr>,
           InitDb = kv (exClusterWorld []), Version = 8,
           Collector = \<lparr>collectorPrefix = [], startIndex = 8\<rparr>\<rparr>, None), ?wc)"
    using snapAndReadClusterInfo_order [OF a b c, of exCodec] r by simp
  let ?w2 = "exClusterWorld [Interfere id, Fault (ExtError ''timeout'')]"
  let ?w2a = "\<lparr>kv = kv (exClusterWorld []), sched = [Fault (ExtError ''timeout'')], kvIndex = 8,
      clock = 0, calls = [CallSnapshot []]\<rparr>"
  let ?w2b = "\<lparr>kv = kv (exClusterWorld []), sched = [], kvIndex = 8,
      clock = 0, calls = [CallSnapshot [], CallNewUpdatesCollector [] 8]\<rparr>"
  have a2: "enter (CallSnapshot []) ?w2 = (None, ?w2a)"
    by (simp add: enter_def exClusterWorld_def)
  have b2: "enter (CallNewUpdatesCollector [] (kvIndex ?w2a)) ?w2a = (Some (ExtError ''timeout''), ?w2b)"
    by (simp add: enter_def exClusterWorld_def)
  obtain o3 wc2 where c2: "enter (CallSnapshotGet ClusterDBKey) ?w2b = (o3, wc2)"
    by (cases "enter (CallSnapshotGet ClusterDBKey) ?w2b")
  have 2: "snapAndReadClusterInfo exCodec ?w2 = ((None, Some (ExtError ''timeout'')), ?w2b)"
    using snapAndReadClusterInfo_order [OF a2 b2 c2, of exCodec] by simp
  let ?w3 = "exClusterWorld [Fault (ExtError ''timeout'')]"
  let ?w3a = "\<lparr>kv = kv (exClusterWorld []), sched = [], kvIndex = 7,
      clock = 0, calls = [CallSnapshot []]\<rparr>"
  have a3: "enter (CallSnapshot []) ?w3 = (Some (ExtError ''timeout''), ?w3a)"
    by (simp add: enter_def exClusterWorld_def)
  obtain o2 wb3 where b3: "enter (CallNewUpdatesCollector [] (kvIndex ?w3a)) ?w3a = (o2, wb3)"
    by (cases "enter (CallNewUpdatesCollector [] (kvIndex ?w3a)) ?w3a")
  obtain o3' wc3 where c3: "enter (CallSnapshotGet ClusterDBKey) wb3 = (o3', wc3)"
    by (cases "enter (CallSnapshotGet ClusterDBKey) wb3")
  have 3: "snapAndReadClusterInfo exCodec ?w3 = ((None, Some (ExtError ''timeout'')), ?w3a)"
    using snapAndReadClusterInfo_order [OF a3 b3 c3, of exCodec] by simp
  show ?thesis using 1 2 3 by simp
qed

section \<open>Properties of the alert store\<close>

lemma map_of_setKey: "map_of (setKey k e s) = (map_of s)(k \<mapsto> e)"
  by (induction s) (auto simp: fun_eq_iff)

lemma setKey_idem: "setKey k e (setKey k e s) = setKey k e s"
  by (induction s) auto

text \<open>What \<open>enumerate\<close> does with a severity filter \<open>S\<close> other than zero: it takes
  the alerts that it returns without the severity filter; with a nil pointer
  among them it panics, otherwise it returns exactly those of severity at most
  \<open>S\<close>, in their order, with the same error.\<close>

lemma severityLoop_filter:
  "severityLoop flt vs acc =
     (if None \<in> set vs then Panic
      else Return (acc @
             filter (\<lambda>v. case v of None \<Rightarrow> False | Some a \<Rightarrow> Severity a \<le> Severity flt) vs))"
proof (induction vs arbitrary: acc)
  case Nil
  show ?case by simp
next
  case (Cons v vs)
  show ?case
  proof (cases v)
    case None
    then show ?thesis by simp
  next
    case (Some a)
    with Cons show ?thesis by simp
  qed
qed

lemma enumerate_alerts_severity:
  assumes "Severity flt \<noteq> 0"
  shows "\<exists>alerts err w'.
           enumerate_alerts js (Some (flt\<lparr>Severity := 0\<rparr>)) w = Return ((alerts, err), w') \<and>
           enumerate_alerts js (Some flt) w =
             (if None \<in> set alerts then Panic
              else Return
                ((filter (\<lambda>v. case v of None \<Rightarrow> False | Some a \<Rightarrow> Severity a \<le> Severity flt)
                    alerts, err), w'))"
proof -
  obtain ra err w1 where
    r: "(if Resource flt \<noteq> RESOURCE_TYPE_NONE
         then getResourceSpecificAlerts js (Resource flt) w
         else getAllAlerts js w) = ((ra, err), w1)"
    by (metis surj_pair)
  show ?thesis
  proof (cases "Resource flt \<noteq> RESOURCE_TYPE_NONE \<and> err \<noteq> None")
    case True
    with r assms show ?thesis
      by (simp add: enumerate_alerts_def)
  next
    case False
    with r assms show ?thesis
      by (auto simp: enumerate_alerts_def severityLoop_filter)
  qed
qed

text \<open>With the resource \<open>RESOURCE_TYPE_NONE\<close> and no severity filter, \<open>enumerate\<close>
  scans the partitions Node, Volume, Cluster and Drive in this order and joins
  what they give, a partition whose enumeration fails giving nothing; when the
  union is empty it fails with the error \<open>No alert raised yet\<close>.\<close>

lemma enumerate_alerts_union:
  assumes "Resource flt = RESOURCE_TYPE_NONE" and "Severity flt = 0"
  shows "enumerate_alerts js (Some flt) w =
        (let (alerts, w') =
               scanPartitions js [RESOURCE_TYPE_NODE, RESOURCE_TYPE_VOLUME,
                 RESOURCE_TYPE_CLUSTER, RESOURCE_TYPE_DRIVE] w
         in if alerts = [] then Return (([], Some (Errorf ''No alert raised yet'')), w')
            else Return ((alerts, None), w'))"
proof -
  obtain a1 e1 w1 where
    r1: "getResourceSpecificAlerts js RESOURCE_TYPE_NODE w = ((a1, e1), w1)"
    by (metis surj_pair)
  obtain a2 e2 w2 where
    r2: "getResourceSpecificAlerts js RESOURCE_TYPE_VOLUME w1 = ((a2, e2), w2)"
    by (metis surj_pair)
  obtain a3 e3 w3 where
    r3: "getResourceSpecificAlerts js RESOURCE_TYPE_CLUSTER w2 = ((a3, e3), w3)"
    by (metis surj_pair)
  obtain a4 e4 w4 where
    r4: "getResourceSpecificAlerts js RESOURCE_TYPE_DRIVE w3 = ((a4, e4), w4)"
    by (metis surj_pair)
  from assms r1 r2 r3 r4 show ?thesis
    by (auto simp: enumerate_alerts_def getAllAlerts_def Let_def)
qed


text \<open>
  Claim C8. \<open>clear\<close> fails with \<open>ErrResourceNotFound\<close> for the resource
  \<open>RESOURCE_TYPE_NONE\<close>, without a call to the store, and with the store's
  not-found error when the record is absent. On an existing record, with
  nobody interfering, it reads the record, sets \<open>Cleared\<close> and writes it back
  with the given time to live by \<open>Update\<close>. Clearing again succeeds and leaves
  the store as it is (for a codec that reads back what it wrote); in particular
  an alert that was cleared already is written back as it was.
\<close>

theorem clear_sets_cleared:
  assumes key: "key = getResourceKey resourceType @ FormatInt alertID"
  shows
  "clear js RESOURCE_TYPE_NONE alertID ttl w = (Some ErrResourceNotFound, w) \<and>
   (resourceType \<noteq> RESOURCE_TYPE_NONE \<and> reached w = Some s \<and> map_of s key = None \<longrightarrow>
      (\<exists>w'. clear js resourceType alertID ttl w = (Some KvErrNotFound, w') \<and> kv w' = s)) \<and>
   (resourceType \<noteq> RESOURCE_TYPE_NONE \<and> reached w = Some s \<and> tl (sched w) = [] \<and>
    map_of s key = Some (b, t) \<and> unmarshalAlert js b zeroAlert = (a, None) \<longrightarrow>
      (\<exists>w'. clear js resourceType alertID ttl w = (None, w') \<and>
            kv w' = setKey key (marshalAlert js (a\<lparr>Cleared := True\<rparr>), ttl) s \<and>
            calls w' = calls w @
              [CallGet key, CallUpdate key (marshalAlert js (a\<lparr>Cleared := True\<rparr>)) ttl] \<and>
            (unmarshalAlert js (marshalAlert js (a\<lparr>Cleared := True\<rparr>)) zeroAlert =
               (a\<lparr>Cleared := True\<rparr>, None) \<longrightarrow>
             (\<exists>w''. clear js resourceType alertID ttl w' = (None, w'') \<and> kv w'' = kv w'))))"
proof (intro conjI impI)
  show "clear js RESOURCE_TYPE_NONE alertID ttl w = (Some ErrResourceNotFound, w)"
    by (simp add: clear_def)
next
  assume h: "resourceType \<noteq> RESOURCE_TYPE_NONE \<and> reached w = Some s \<and> map_of s key = None"
  then obtain w1 where w1: "enter (CallGet key) w = (None, w1)" "kv w1 = s"
    using enter_reached by blast
  then show "\<exists>w'. clear js resourceType alertID ttl w = (Some KvErrNotFound, w') \<and> kv w' = s"
    using h key by (simp add: clear_def kvGetVal_def kvGet_def)
next
  assume h: "resourceType \<noteq> RESOURCE_TYPE_NONE \<and> reached w = Some s \<and> tl (sched w) = [] \<and>
    map_of s key = Some (b, t) \<and> unmarshalAlert js b zeroAlert = (a, None)"
  let ?v = "marshalAlert js (a\<lparr>Cleared := True\<rparr>)"
  from h obtain w1 where w1: "enter (CallGet key) w = (None, w1)" "kv w1 = s"
    "sched w1 = []" "calls w1 = calls w @ [CallGet key]"
    using enter_reached [of w s "CallGet key"] by auto
  let ?w2 = "w1\<lparr>calls := calls w1 @ [CallUpdate key ?v ttl], kv := setKey key (?v, ttl) s,
                 kvIndex := kvIndex w1 + 1\<rparr>"
  have c1: "clear js resourceType alertID ttl w = (None, ?w2)"
    using h key w1 by (simp add: clear_def kvGetVal_def kvGet_def kvUpdate_def enter_quiet pairOf_def Let_def)
  have c2: "clear js resourceType alertID ttl ?w2 =
              (None, ?w2\<lparr>calls := calls ?w2 @ [CallGet key, CallUpdate key ?v ttl],
                        kvIndex := kvIndex ?w2 + 1\<rparr>)"
    if "unmarshalAlert js ?v zeroAlert = (a\<lparr>Cleared := True\<rparr>, None)"
    using h key w1 that
    by (simp add: clear_def kvGetVal_def kvGet_def kvUpdate_def enter_quiet pairOf_def Let_def
        map_of_setKey setKey_idem)
  show "\<exists>w'. clear js resourceType alertID ttl w = (None, w') \<and>
            kv w' = setKey key (marshalAlert js (a\<lparr>Cleared := True\<rparr>), ttl) s \<and>
            calls w' = calls w @
              [CallGet key, CallUpdate key (marshalAlert js (a\<lparr>Cleared := True\<rparr>)) ttl] \<and>
            (unmarshalAlert js (marshalAlert js (a\<lparr>Cleared := True\<rparr>)) zeroAlert =
               (a\<lparr>Cleared := True\<rparr>, None) \<longrightarrow>
             (\<exists>w''. clear js resourceType alertID ttl w' = (None, w'') \<and> kv w'' = kv w'))"
    using c1 c2 w1 by (intro exI [of _ ?w2]) auto
qed

text \<open>Clearing the alert \<open>alert/node/0\<close> of the sample store, twice.\<close>

theorem clear_sets_cleared_witness:
  "\<exists>w'. clear exCodec RESOURCE_TYPE_NODE 0 60 (exWorld exStore []) = (None, w') \<and>
      kv w' = setKey ''alert/node/0''
                (exMarshalAlert (exAlert 0 1 7 RESOURCE_TYPE_NODE True), 60) exStore \<and>
      (\<exists>w''. clear exCodec RESOURCE_TYPE_NODE 0 60 w' = (None, w'') \<and> kv w'' = kv w')"
proof -
  let ?w = "exWorld exStore []"
  let ?b = "exMarshalAlert (exAlert 0 1 7 RESOURCE_TYPE_NODE False)"
  let ?a = "exAlert 0 1 7 RESOURCE_TYPE_NODE False"
  have k: "''alert/node/0'' = getResourceKey RESOURCE_TYPE_NODE @ FormatInt 0" by code_simp
  have h: "RESOURCE_TYPE_NODE \<noteq> RESOURCE_TYPE_NONE \<and> reached ?w = Some exStore \<and>
     tl (sched ?w) = [] \<and> map_of exStore ''alert/node/0'' = Some (?b, 0) \<and>
     unmarshalAlert exCodec ?b zeroAlert = (?a, None)"
    by (intro conjI; code_simp)
  have c: "?a\<lparr>Cleared := True\<rparr> = exAlert 0 1 7 RESOURCE_TYPE_NODE True"
    by (simp add: exAlert_def)
  have rt: "unmarshalAlert exCodec (marshalAlert exCodec (?a\<lparr>Cleared := True\<rparr>)) zeroAlert =
               (?a\<lparr>Cleared := True\<rparr>, None)"
    by code_simp
  have m: "marshalAlert exCodec = exMarshalAlert" by (simp add: exCodec_def)
  from clear_sets_cleared [OF k, where js = exCodec and ttl = 60 and w = ?w and s = exStore
      and b = ?b and t = 0 and a = ?a] h rt
  show ?thesis unfolding c m by blast
qed

lemma raise_none:
  "Resource a = RESOURCE_TYPE_NONE \<Longrightarrow> raise js a w = Some ((a, Some ErrResourceNotFound), w)"
  by (simp add: raise_def)

lemma kvGetVal_absent:
  assumes "reached w = Some s" and "map_of s key = None"
  shows "\<exists>w1. kvGetVal key um v w = (Inl KvErrNotFound, w1) \<and> kv w1 = s \<and>
           calls w1 = calls w @ [CallGet key]"
proof -
  from enter_reached [OF assms(1), of "CallGet key"] obtain w1 where
    "enter (CallGet key) w = (None, w1)" "kv w1 = s" "calls w1 = calls w @ [CallGet key]"
    by blast
  with assms(2) show ?thesis by (simp add: kvGetVal_def kvGet_def)
qed

text \<open>Without a subscription list for the alert's type, \<open>Raise\<close> on an alert of
  resource \<open>RESOURCE_TYPE_NONE\<close> returns \<open>ErrResourceNotFound\<close>; the lookup of the
  list is the only call made, and the store is unchanged.\<close>

lemma Raise_none_unsubscribed:
  assumes "Resource a = RESOURCE_TYPE_NONE"
      and "reached w = Some s"
      and "map_of s (getSubscriptionsKey (AlertType a)) = None"
  shows "\<exists>w'. Raise (Suc depth) js a w = Some ((a, Some ErrResourceNotFound), w') \<and>
           kv w' = s \<and> calls w' = calls w @ [CallGet (getSubscriptionsKey (AlertType a))]"
proof -
  from kvGetVal_absent [OF assms(2,3), of "unmarshalAlerts js" "[]"] obtain w1 where
    "kvGetVal (getSubscriptionsKey (AlertType a)) (unmarshalAlerts js) [] w =
       (Inl KvErrNotFound, w1)"
    "kv w1 = s" "calls w1 = calls w @ [CallGet (getSubscriptionsKey (AlertType a))]"
    by blast
  with assms(1) show ?thesis
    by (intro exI [of _ w1]) (simp add: raise_none)
qed

text \<open>
  Claim C4. An alert of resource \<open>RESOURCE_TYPE_NONE\<close> is to be refused before any
  subscription is processed, with the store unchanged. \<open>raise\<close> and \<open>clear\<close>
  test the resource before they call the store; \<open>Raise\<close> reaches the test, in
  \<open>raise\<close>, only after it has looked the subscriptions up and raised them. On a
  store holding a node alert subscribed under type 7 and nothing else, \<open>Raise\<close>
  of an alert of type 7 without resource returns \<open>ErrResourceNotFound\<close> after
  four calls of the store: it has read the list, raised the child (which has
  no subscriptions of its own), allocated the identifier 0 and stored the
  child under \<open>alert/node/0\<close>. A greater bound on the depth changes nothing.
\<close>

theorem Raise_none_resource_raises_subscribed:
  "map_option (snd \<circ> fst)
     (Raise 2 exCodec (exAlert 0 2 7 RESOURCE_TYPE_NONE False) (exWorld exSubscriptions [])) =
     Some (Some ErrResourceNotFound) \<and>
   map_option (map fst \<circ> kv \<circ> snd)
     (Raise 2 exCodec (exAlert 0 2 7 RESOURCE_TYPE_NONE False) (exWorld exSubscriptions [])) =
     Some [''alert/subscriptions/7'', ''alert/nextAlertId'', ''alert/node/0''] \<and>
   map_option (calls \<circ> snd)
     (Raise 2 exCodec (exAlert 0 2 7 RESOURCE_TYPE_NONE False) (exWorld exSubscriptions [])) =
     Some [CallGet ''alert/subscriptions/7'', CallGet ''alert/subscriptions/8'',
           CallCreate ''alert/nextAlertId'' ''1'' 0,
           CallCreate ''alert/node/0''
             (exMarshalAlert (exAlert 0 1 8 RESOURCE_TYPE_NODE False)) 0] \<and>
   map fst (kv (exWorld exSubscriptions [])) = [''alert/subscriptions/7''] \<and>
   map_option (\<lambda>r. (snd (fst r), map fst (kv (snd r))))
     (Raise 5 exCodec (exAlert 0 2 7 RESOURCE_TYPE_NONE False) (exWorld exSubscriptions [])) =
     Some (Some ErrResourceNotFound,
           [''alert/subscriptions/7'', ''alert/nextAlertId'', ''alert/node/0'']) \<and>
   fst (clear exCodec RESOURCE_TYPE_NONE 0 0 (exWorld exSubscriptions [])) =
     Some ErrResourceNotFound \<and>
   calls (snd (clear exCodec RESOURCE_TYPE_NONE 0 0 (exWorld exSubscriptions []))) = []"
  by code_simp

section \<open>Properties of the identifier allocator\<close>

lemma attempts_append:
  "attempts xs \<Longrightarrow> attempts ys \<Longrightarrow> attempts (xs @ ys)"
  by (induction xs rule: attempts.induct) auto

lemma kvGetVal_Inr:
  assumes "kvGetVal key um v w = (Inr (kvp, m), w1)"
  shows "Key kvp = key \<and> (\<exists>t. map_of (kv w1) key = Some (Value kvp, t) \<and> TTL kvp = t) \<and>
         sched w1 = tl (sched w) \<and> calls w1 = calls w @ [CallGet key] \<and>
         um (Value kvp) v = (m, None)"
proof -
  obtain r wa where e: "enter (CallGet key) w = (r, wa)" by force
  from assms e show ?thesis
    using enter_sched [OF e] enter_calls [OF e]
    by (auto simp: kvGetVal_def kvGet_def pairOf_def split: option.splits prod.splits)
qed

lemma kvGetVal_Inl:
  assumes "kvGetVal key um v w = (Inl e, w1)"
  shows "sched w1 = tl (sched w) \<and> calls w1 = calls w @ [CallGet key]"
proof -
  obtain r wa where e: "enter (CallGet key) w = (r, wa)" by force
  from assms e show ?thesis
    using enter_sched [OF e] enter_calls [OF e]
    by (auto simp: kvGetVal_def kvGet_def pairOf_def split: option.splits prod.splits)
qed

lemma kvCompareAndSet_ok:
  assumes "kvCompareAndSet kvp flags prev w = ((r, None), w2)"
  shows "(\<exists>s t. reached w = Some s \<and> map_of s (Key kvp) = Some (prev, t) \<and>
            kv w2 = setKey (Key kvp) (Value kvp, TTL kvp) s) \<and>
         sched w2 = tl (sched w) \<and>
         calls w2 = calls w @ [CallCompareAndSet (Key kvp) (Value kvp) prev]"
proof -
  obtain o1 wa where e: "enter (CallCompareAndSet (Key kvp) (Value kvp) prev) w = (o1, wa)"
    by force
  from assms e have "o1 = None"
    by (auto simp: kvCompareAndSet_def split: option.splits)
  with e have "reached w = Some (kv wa)"
    by (auto simp: enter_def reached_def Let_def split: list.splits envStep.splits)
  with assms e show ?thesis
    using enter_sched [OF e] enter_calls [OF e]
    by (auto simp: kvCompareAndSet_def split: option.splits prod.splits if_splits)
qed

lemma kvCompareAndSet_fails:
  assumes "kvCompareAndSet kvp flags prev w = ((r, Some e), w2)"
  shows "sched w2 = tl (sched w) \<and>
         calls w2 = calls w @ [CallCompareAndSet (Key kvp) (Value kvp) prev] \<and>
         (map_of (kv w) (Key kvp) = Some (prev, t) \<longrightarrow> sched w \<noteq> [])"
proof -
  obtain o1 wa where en: "enter (CallCompareAndSet (Key kvp) (Value kvp) prev) w = (o1, wa)"
    by force
  have "map_of (kv w) (Key kvp) = Some (prev, t) \<Longrightarrow> sched w = [] \<Longrightarrow> False"
    using assms by (simp add: kvCompareAndSet_def enter_quiet)
  with assms en show ?thesis
    using enter_sched [OF en] enter_calls [OF en]
    by (auto simp: kvCompareAndSet_def split: option.splits prod.splits if_splits)
qed

lemma nextIDLoop_returns: "\<exists>r. nextIDLoop js n err w = Some r"
proof (induction "length (sched w)" arbitrary: w n err rule: less_induct)
  case less
  show ?case
  proof (cases err)
    case None
    then show ?thesis by (subst nextIDLoop.simps) simp
  next
    case (Some e0)
    obtain r w1 where g: "kvGetVal getNextAlertIDKey (unmarshalInt js) n w = (r, w1)" by force
    show ?thesis
    proof (cases r)
      case (Inl e)
      with g Some show ?thesis by (subst nextIDLoop.simps) simp
    next
      case (Inr p)
      obtain kvp m where p: "p = (kvp, m)" by force
      note gv = kvGetVal_Inr [OF g [unfolded Inr p]]
      obtain kvp' err' w2 where
        c: "kvCompareAndSet (kvp\<lparr>Value := FormatInt (m + 1)\<rparr>) 0 (Value kvp) w1 = ((kvp', err'), w2)"
        by (metis surj_pair)
      have step: "nextIDLoop js n err w = nextIDLoop js m err' w2"
        using g Some Inr p c by (subst nextIDLoop.simps) (simp add: Let_def)
      show ?thesis
      proof (cases err')
        case None
        then show ?thesis unfolding step by (subst nextIDLoop.simps) simp
      next
        case (Some e')
        from gv obtain t where "map_of (kv w1) (Key (kvp\<lparr>Value := FormatInt (m + 1)\<rparr>)) = Some (Value kvp, t)"
          by auto
        with kvCompareAndSet_fails [OF c [unfolded Some], of t]
        have "sched w1 \<noteq> []" "sched w2 = tl (sched w1)" by auto
        with gv have "length (sched w2) < length (sched w)"
          by (cases "sched w") (auto simp: less_Suc_eq_le)
        from less [OF this] show ?thesis unfolding step .
      qed
    qed
  qed
qed

lemma nextIDLoop_result:
  assumes "nextIDLoop js n (Some e0) w = Some ((idv, e), w')"
  shows "\<exists>pre. attempts pre \<and>
           (calls w' = calls w @ pre @ [CallGet getNextAlertIDKey] \<and>
              e = Some ErrNotInitialized \<and> idv = - 1
            \<or> (\<exists>b m t. calls w' = calls w @ pre @
                   [CallGet getNextAlertIDKey,
                    CallCompareAndSet getNextAlertIDKey (FormatInt (idv + 1)) b] \<and>
                 e = None \<and> unmarshalInt js b m = (idv, None) \<and>
                 map_of (kv w') getNextAlertIDKey = Some (FormatInt (idv + 1), t)))"
  using assms
proof (induction "length (sched w)" arbitrary: w n e0 rule: less_induct)
  case less
  let ?key = getNextAlertIDKey
  obtain r w1 where g: "kvGetVal ?key (unmarshalInt js) n w = (r, w1)" by force
  show ?case
  proof (cases r)
    case (Inl e1)
    with g less.prems have "idv = - 1" "e = Some ErrNotInitialized" "w' = w1"
      by (subst (asm) nextIDLoop.simps, simp)+
    with kvGetVal_Inl [OF g [unfolded Inl]] show ?thesis
      by (intro exI [of _ "[]"]) simp
  next
    case (Inr p)
    obtain kvp m where p: "p = (kvp, m)" by force
    note gv = kvGetVal_Inr [OF g [unfolded Inr p]]
    let ?new = "kvp\<lparr>Value := FormatInt (m + 1)\<rparr>"
    obtain kvp' err' w2 where
      c: "kvCompareAndSet ?new 0 (Value kvp) w1 = ((kvp', err'), w2)"
      by (metis surj_pair)
    have step: "nextIDLoop js n (Some e0) w = nextIDLoop js m err' w2"
      using g Inr p c by (subst nextIDLoop.simps) (simp add: Let_def)
    show ?thesis
    proof (cases err')
      case None
      with step less.prems have res: "idv = m" "e = None" "w' = w2"
        by (subst (asm) (2) nextIDLoop.simps, simp)+
      from kvCompareAndSet_ok [OF c [unfolded None]] gv
      have "calls w2 = calls w @ [CallGet ?key, CallCompareAndSet ?key (FormatInt (m + 1)) (Value kvp)]"
        and "\<exists>t. map_of (kv w2) ?key = Some (FormatInt (m + 1), t)"
        by (auto simp: map_of_setKey)
      with res gv show ?thesis
        by (intro exI [of _ "[]"]) auto
    next
      case (Some e')
      from gv obtain t where "map_of (kv w1) (Key ?new) = Some (Value kvp, t)"
        by auto
      with kvCompareAndSet_fails [OF c [unfolded Some], of t]
      have s: "sched w1 \<noteq> []" "sched w2 = tl (sched w1)"
        and cl: "calls w2 = calls w1 @ [CallCompareAndSet (Key ?new) (Value ?new) (Value kvp)]"
        by auto
      with gv have lt: "length (sched w2) < length (sched w)"
        by (cases "sched w") (auto simp: less_Suc_eq_le)
      have "nextIDLoop js m (Some e') w2 = Some ((idv, e), w')"
        using step Some less.prems by simp
      from less.hyps [OF lt this] obtain pre where pre: "attempts pre"
        "calls w' = calls w2 @ pre @ [CallGet ?key] \<and> e = Some ErrNotInitialized \<and> idv = - 1
          \<or> (\<exists>b m t. calls w' = calls w2 @ pre @
                   [CallGet ?key, CallCompareAndSet ?key (FormatInt (idv + 1)) b] \<and>
                 e = None \<and> unmarshalInt js b m = (idv, None) \<and>
                 map_of (kv w') ?key = Some (FormatInt (idv + 1), t))"
        by blast
      let ?pre = "[CallGet ?key, CallCompareAndSet ?key (FormatInt (m + 1)) (Value kvp)] @ pre"
      have c2: "calls w2 = calls w @ [CallGet ?key, CallCompareAndSet ?key (FormatInt (m + 1)) (Value kvp)]"
        using cl gv by simp
      have "attempts ?pre" using pre(1) by simp
      with pre(2) c2 show ?thesis
        by (intro exI [of _ ?pre]) auto
    qed
  qed
qed

lemma FormatInt_one: "FormatInt 1 = ''1''"
  by (simp add: FormatInt_def FormatNat.simps)

lemma kvCreate_calls:
  "kvCreate key v t w = ((r, e), w1) \<Longrightarrow> calls w1 = calls w @ [CallCreate key v t]"
proof -
  assume a: "kvCreate key v t w = ((r, e), w1)"
  obtain o1 wa where en: "enter (CallCreate key v t) w = (o1, wa)" by force
  from a en enter_calls [OF en] show ?thesis
    by (auto simp: kvCreate_def split: option.splits)
qed

lemma nextIDLoop_round:
  "(case kvGetVal getNextAlertIDKey (unmarshalInt js) n wa of
      (Inl e1, w1) \<Rightarrow> nextIDLoop js n (Some e0) wa = Some ((- 1, Some ErrNotInitialized), w1)
    | (Inr (kvp, m), w1) \<Rightarrow>
        (case kvCompareAndSet (kvp\<lparr>Value := FormatInt (m + 1)\<rparr>) 0 (Value kvp) w1 of
           ((r, None), w2) \<Rightarrow> nextIDLoop js n (Some e0) wa = Some ((m, None), w2)
         | ((r, Some e'), w2) \<Rightarrow>
             nextIDLoop js n (Some e0) wa = nextIDLoop js m (Some e') w2))"
proof -
  obtain g w1 where g: "kvGetVal getNextAlertIDKey (unmarshalInt js) n wa = (g, w1)" by force
  show ?thesis
  proof (cases g)
    case (Inl e1)
    with g show ?thesis by (subst nextIDLoop.simps) simp
  next
    case (Inr p)
    obtain kvp m where p: "p = (kvp, m)" by force
    obtain r err' w2 where
      c: "kvCompareAndSet (kvp\<lparr>Value := FormatInt (m + 1)\<rparr>) 0 (Value kvp) w1 = ((r, err'), w2)"
      by (metis surj_pair)
    have step: "nextIDLoop js n (Some e0) wa = nextIDLoop js m err' w2"
      using g Inr p c by (subst nextIDLoop.simps) (simp add: Let_def)
    show ?thesis
    proof (cases err')
      case None
      have "nextIDLoop js m None w2 = Some ((m, None), w2)"
        by (subst nextIDLoop.simps) simp
      with g Inr p c None step show ?thesis by simp
    next
      case (Some e')
      with g Inr p c step show ?thesis by simp
    qed
  qed
qed

text \<open>
  Claim C1. \<open>getNextIDFromKVDB\<close> returns, whatever the (finitely many) other
  clients and faults do. It first creates the counter key with the value \<open>1\<close>.
  When the creation succeeds, as it does when the key is absent, the
  identifier is \<open>0\<close> and the creation is the only call made. When the creation
  fails, the allocation is the retry loop started at \<open>0\<close>: the calls that follow
  the creation are failed rounds and a last round, never none. A round reads
  the counter; a failed read ends the allocation with the identifier \<open>-1\<close> and
  \<open>ErrNotInitialized\<close>; after a read of bytes that decode to \<open>m\<close> the round
  attempts a compare-and-set that stores \<open>m + 1\<close> with the bytes read as the
  expected prior bytes, whose success ends the allocation with the identifier
  \<open>m\<close> and whose failure starts the next round. The last round of a successful
  allocation has thus read bytes \<open>b\<close> that decode to the identifier returned, and
  left the identifier plus one in the store. A compare-and-set succeeds only
  on a store that still holds the expected bytes.
\<close>

theorem getNextIDFromKVDB_allocates:
  "(\<exists>r. getNextIDFromKVDB js w = Some r) \<and>
   (\<forall>r w1. kvCreate getNextAlertIDKey ''1'' 0 w = ((r, None), w1) \<longrightarrow>
      getNextIDFromKVDB js w = Some ((0, None), w1) \<and>
      calls w1 = calls w @ [CallCreate getNextAlertIDKey ''1'' 0]) \<and>
   (\<forall>r e0 w1. kvCreate getNextAlertIDKey ''1'' 0 w = ((r, Some e0), w1) \<longrightarrow>
      getNextIDFromKVDB js w = nextIDLoop js 0 (Some e0) w1 \<and>
      (\<forall>idv e w'. getNextIDFromKVDB js w = Some ((idv, e), w') \<longrightarrow>
         (\<exists>pre. attempts pre \<and>
            (calls w' = calls w @ CallCreate getNextAlertIDKey ''1'' 0 # pre @
                 [CallGet getNextAlertIDKey] \<and>
               e = Some ErrNotInitialized \<and> idv = - 1
             \<or> (\<exists>b m t. calls w' = calls w @ CallCreate getNextAlertIDKey ''1'' 0 # pre @
                    [CallGet getNextAlertIDKey,
                     CallCompareAndSet getNextAlertIDKey (FormatInt (idv + 1)) b] \<and>
                  e = None \<and> unmarshalInt js b m = (idv, None) \<and>
                  map_of (kv w') getNextAlertIDKey = Some (FormatInt (idv + 1), t)))))) \<and>
   (\<forall>n e0 wa.
      (case kvGetVal getNextAlertIDKey (unmarshalInt js) n wa of
         (Inl e1, w1) \<Rightarrow>
           nextIDLoop js n (Some e0) wa = Some ((- 1, Some ErrNotInitialized), w1)
       | (Inr (kvp, m), w1) \<Rightarrow>
           (case kvCompareAndSet (kvp\<lparr>Value := FormatInt (m + 1)\<rparr>) 0 (Value kvp) w1 of
              ((r, None), w2) \<Rightarrow> nextIDLoop js n (Some e0) wa = Some ((m, None), w2)
            | ((r, Some e'), w2) \<Rightarrow>
                nextIDLoop js n (Some e0) wa = nextIDLoop js m (Some e') w2))) \<and>
   (\<forall>s. reached w = Some s \<and> map_of s getNextAlertIDKey = None \<longrightarrow>
      (\<exists>w'. getNextIDFromKVDB js w = Some ((0, None), w') \<and>
            kv w' = setKey getNextAlertIDKey (''1'', 0) s \<and>
            calls w' = calls w @ [CallCreate getNextAlertIDKey ''1'' 0])) \<and>
   (\<forall>kvp prev wa r wb. kvCompareAndSet kvp 0 prev wa = ((r, None), wb) \<longrightarrow>
      (\<exists>s t. reached wa = Some s \<and> map_of s (Key kvp) = Some (prev, t)))"
proof (intro conjI allI impI)
  obtain r err w1 where c: "kvCreate getNextAlertIDKey (FormatInt (0 + 1)) 0 w = ((r, err), w1)"
    by (metis surj_pair)
  obtain x where "nextIDLoop js 0 err w1 = Some x"
    using nextIDLoop_returns by blast
  with c show "\<exists>r. getNextIDFromKVDB js w = Some r"
    by (simp add: getNextIDFromKVDB_def)
next
  fix r w1 assume "kvCreate getNextAlertIDKey ''1'' 0 w = ((r, None), w1)"
  then show "getNextIDFromKVDB js w = Some ((0, None), w1)"
    by (simp add: getNextIDFromKVDB_def FormatInt_one nextIDLoop.simps)
next
  fix r w1 assume "kvCreate getNextAlertIDKey ''1'' 0 w = ((r, None), w1)"
  then show "calls w1 = calls w @ [CallCreate getNextAlertIDKey ''1'' 0]"
    by (rule kvCreate_calls)
next
  fix r e0 w1 assume "kvCreate getNextAlertIDKey ''1'' 0 w = ((r, Some e0), w1)"
  then show "getNextIDFromKVDB js w = nextIDLoop js 0 (Some e0) w1"
    by (simp add: getNextIDFromKVDB_def FormatInt_one)
next
  fix r e0 w1 idv e w'
  assume c: "kvCreate getNextAlertIDKey ''1'' 0 w = ((r, Some e0), w1)"
     and a: "getNextIDFromKVDB js w = Some ((idv, e), w')"
  let ?key = getNextAlertIDKey
  note cc = kvCreate_calls [OF c]
  from a c have l: "nextIDLoop js 0 (Some e0) w1 = Some ((idv, e), w')"
    by (simp add: getNextIDFromKVDB_def FormatInt_one)
  from nextIDLoop_result [OF l] cc
  show "\<exists>pre. attempts pre \<and>
         (calls w' = calls w @ CallCreate ?key ''1'' 0 # pre @ [CallGet ?key] \<and>
            e = Some ErrNotInitialized \<and> idv = - 1
          \<or> (\<exists>b m t. calls w' = calls w @ CallCreate ?key ''1'' 0 # pre @
                 [CallGet ?key, CallCompareAndSet ?key (FormatInt (idv + 1)) b] \<and>
               e = None \<and> unmarshalInt js b m = (idv, None) \<and>
               map_of (kv w') ?key = Some (FormatInt (idv + 1), t)))"
    by auto
next
  fix n e0 wa
  show "case kvGetVal getNextAlertIDKey (unmarshalInt js) n wa of
         (Inl e1, w1) \<Rightarrow>
           nextIDLoop js n (Some e0) wa = Some ((- 1, Some ErrNotInitialized), w1)
       | (Inr (kvp, m), w1) \<Rightarrow>
           (case kvCompareAndSet (kvp\<lparr>Value := FormatInt (m + 1)\<rparr>) 0 (Value kvp) w1 of
              ((r, None), w2) \<Rightarrow> nextIDLoop js n (Some e0) wa = Some ((m, None), w2)
            | ((r, Some e'), w2) \<Rightarrow>
                nextIDLoop js n (Some e0) wa = nextIDLoop js m (Some e') w2)"
    by (rule nextIDLoop_round)
next
  fix s assume h: "reached w = Some s \<and> map_of s getNextAlertIDKey = None"
  let ?key = getNextAlertIDKey
  from h obtain w1 where w1: "enter (CallCreate ?key ''1'' 0) w = (None, w1)" "kv w1 = s"
    "calls w1 = calls w @ [CallCreate ?key ''1'' 0]"
    using enter_reached [of w s "CallCreate ?key ''1'' 0"] by auto
  let ?w' = "w1\<lparr>kv := setKey ?key (''1'', 0) (kv w1), kvIndex := kvIndex w1 + 1\<rparr>"
  have "getNextIDFromKVDB js w = Some ((0, None), ?w')"
    using h w1 by (simp add: getNextIDFromKVDB_def FormatInt_one kvCreate_def nextIDLoop.simps)
  with w1 show "\<exists>w'. getNextIDFromKVDB js w = Some ((0, None), w') \<and>
            kv w' = setKey ?key (''1'', 0) s \<and>
            calls w' = calls w @ [CallCreate ?key ''1'' 0]"
    by (intro exI [of _ ?w']) simp
next
  fix kvp prev wa r wb
  assume "kvCompareAndSet kvp 0 prev wa = ((r, None), wb)"
  from kvCompareAndSet_ok [OF this]
  show "\<exists>s t. reached wa = Some s \<and> map_of s (Key kvp) = Some (prev, t)" by blast
qed

text \<open>An empty store; and a store whose counter another client moves from 3 to 4
  between the read and the compare-and-set, so that the creation and the first
  round fail and the second round allocates 4.\<close>

theorem getNextIDFromKVDB_allocates_witness:
  "(\<exists>w'. getNextIDFromKVDB exCodec (exWorld [] []) = Some ((0, None), w') \<and>
         kv w' = [(''alert/nextAlertId'', ''1'', 0)]) \<and>
   (\<exists>w' pre b m t.
      getNextIDFromKVDB exCodec (exWorld exStore [Interfere id, Interfere id, Interfere exBump]) =
        Some ((4, None), w') \<and>
      attempts pre \<and>
      calls w' = CallCreate ''alert/nextAlertId'' ''1'' 0 # pre @
        [CallGet ''alert/nextAlertId'', CallCompareAndSet ''alert/nextAlertId'' ''5'' b] \<and>
      unmarshalInt exCodec b m = (4, None) \<and>
      map_of (kv w') ''alert/nextAlertId'' = Some (''5'', t))"
proof -
  let ?u = "exWorld [] []"
  let ?w = "exWorld exStore [Interfere id, Interfere id, Interfere exBump]"
  have k: "getNextAlertIDKey = ''alert/nextAlertId''" by code_simp
  have f: "FormatInt (4 + 1) = ''5''" by code_simp
  have h0: "reached ?u = Some [] \<and> map_of [] getNextAlertIDKey = None"
    by (simp add: reached_def exWorld_def)
  have a: "\<exists>w'. getNextIDFromKVDB exCodec ?u = Some ((0, None), w') \<and>
         kv w' = [(''alert/nextAlertId'', ''1'', 0)]"
    using getNextIDFromKVDB_allocates [of exCodec ?u] h0 k by auto
  have "map_option fst (getNextIDFromKVDB exCodec ?w) = Some (4, None)" by code_simp
  then obtain w' where r: "getNextIDFromKVDB exCodec ?w = Some ((4, None), w')" by auto
  have "snd (fst (kvCreate getNextAlertIDKey ''1'' 0 ?w)) = Some KvErrExist" by code_simp
  then obtain r0 w1 where
    cf: "kvCreate getNextAlertIDKey ''1'' 0 ?w = ((r0, Some KvErrExist), w1)"
    by (metis prod.collapse)
  have c: "calls ?w = []" by (simp add: exWorld_def)
  note t = getNextIDFromKVDB_allocates [of exCodec ?w, THEN conjunct2, THEN conjunct2,
    THEN conjunct1, THEN spec, THEN spec, THEN spec, THEN mp, OF cf, THEN conjunct2,
    THEN spec, THEN spec, THEN spec, THEN mp, OF r]
  from t
  have "\<exists>pre. attempts pre \<and>
         (calls w' = calls ?w @ CallCreate getNextAlertIDKey ''1'' 0 # pre @
              [CallGet getNextAlertIDKey] \<and>
            None = Some ErrNotInitialized \<and> (4::int64) = - 1
          \<or> (\<exists>b m t. calls w' = calls ?w @ CallCreate getNextAlertIDKey ''1'' 0 # pre @
                 [CallGet getNextAlertIDKey,
                  CallCompareAndSet getNextAlertIDKey (FormatInt (4 + 1)) b] \<and>
               None = None \<and> unmarshalInt exCodec b m = (4, None) \<and>
               map_of (kv w') getNextAlertIDKey = Some (FormatInt (4 + 1), t)))"
    by simp
  then have b: "\<exists>pre b m t. attempts pre \<and>
      calls w' = CallCreate ''alert/nextAlertId'' ''1'' 0 # pre @
        [CallGet ''alert/nextAlertId'', CallCompareAndSet ''alert/nextAlertId'' ''5'' b] \<and>
      unmarshalInt exCodec b m = (4, None) \<and>
      map_of (kv w') ''alert/nextAlertId'' = Some (''5'', t)"
    unfolding k f c by auto
  from a b r show ?thesis by blast
qed

section \<open>Concurrent allocations\<close>

lemma enter_faultsOnly:
  assumes "\<forall>st \<in> set (sched w). isFault st" and "enter c w = (r, w1)"
  shows "kv w1 = kv w \<and> (\<forall>st \<in> set (sched w1). isFault st)"
  using assms
  by (cases "sched w"; cases "hd (sched w)") (auto simp: enter_def Let_def)

lemma kvCreate_cases:
  assumes "\<forall>st \<in> set (sched w). isFault st"
      and "kvCreate key v t w = ((r, err), w1)"
  shows "(\<forall>st \<in> set (sched w1). isFault st) \<and>
         (err \<noteq> None \<and> kv w1 = kv w \<or>
          err = None \<and> map_of (kv w) key = None \<and> kv w1 = setKey key (v, t) (kv w))"
proof -
  obtain o1 wa where en: "enter (CallCreate key v t) w = (o1, wa)" by force
  from enter_faultsOnly [OF assms(1) en] assms(2) en show ?thesis
    by (auto simp: kvCreate_def split: option.splits)
qed

lemma kvGetVal_faultsOnly:
  assumes "\<forall>st \<in> set (sched w). isFault st"
      and "kvGetVal key um v w = (r, w1)"
  shows "(\<forall>st \<in> set (sched w1). isFault st) \<and> kv w1 = kv w"
proof -
  obtain o1 wa where en: "enter (CallGet key) w = (o1, wa)" by force
  from enter_faultsOnly [OF assms(1) en] assms(2) en show ?thesis
    by (auto simp: kvGetVal_def kvGet_def split: option.splits prod.splits)
qed

lemma kvCompareAndSet_cases:
  assumes "\<forall>st \<in> set (sched w). isFault st"
      and "kvCompareAndSet kvp flags prev w = ((r, err), w1)"
  shows "(\<forall>st \<in> set (sched w1). isFault st) \<and>
         (err \<noteq> None \<and> kv w1 = kv w \<or>
          err = None \<and> (\<exists>t. map_of (kv w) (Key kvp) = Some (prev, t)) \<and>
            kv w1 = setKey (Key kvp) (Value kvp, TTL kvp) (kv w))"
proof -
  obtain o1 wa where en: "enter (CallCompareAndSet (Key kvp) (Value kvp) prev) w = (o1, wa)"
    by force
  from enter_faultsOnly [OF assms(1) en] assms(2) en show ?thesis
    by (auto simp: kvCompareAndSet_def split: option.splits prod.splits if_splits)
qed

lemma runAlloc_add:
  "runAlloc (k + m) js pc w = (let (pc', w') = runAlloc k js pc w in runAlloc m js pc' w')"
  by (induction k arbitrary: pc w) (auto split: prod.splits)

lemma runAlloc_Returned: "runAlloc k js (Returned i e) w = (Returned i e, w)"
  by (induction k) (auto simp: allocStep_def)

lemma nextIDLoop_run:
  assumes "nextIDLoop js n err w = Some ((i, e), w')"
  shows "\<exists>k. runAlloc k js (case err of None \<Rightarrow> Returned n None | Some _ \<Rightarrow> AtGetVal n) w =
              (Returned i e, w')"
  using assms
proof (induction "length (sched w)" arbitrary: w n err rule: less_induct)
  case less
  let ?key = getNextAlertIDKey
  show ?case
  proof (cases err)
    case None
    with less.prems have "i = n" "e = None" "w' = w"
      by (subst (asm) nextIDLoop.simps, simp)+
    with None show ?thesis by (intro exI [of _ 0]) simp
  next
    case (Some e0)
    obtain r w1 where g: "kvGetVal ?key (unmarshalInt js) n w = (r, w1)" by force
    show ?thesis
    proof (cases r)
      case (Inl e1)
      with g less.prems Some have "i = - 1" "e = Some ErrNotInitialized" "w' = w1"
        by (subst (asm) nextIDLoop.simps, simp)+
      with g Inl Some show ?thesis
        by (intro exI [of _ 1]) (simp add: allocStep_def)
    next
      case (Inr pr)
      obtain kvp m where pr: "pr = (kvp, m)" by force
      note gv = kvGetVal_Inr [OF g [unfolded Inr pr]]
      let ?new = "kvp\<lparr>Value := FormatInt (m + 1)\<rparr>"
      obtain kvp' err' w2 where
        c: "kvCompareAndSet ?new 0 (Value kvp) w1 = ((kvp', err'), w2)"
        by (metis surj_pair)
      have step: "nextIDLoop js n err w = nextIDLoop js m err' w2"
        using g Some Inr pr c by (subst nextIDLoop.simps) (simp add: Let_def)
      have two: "runAlloc (Suc (Suc k)) js (AtGetVal n) w =
                   runAlloc k js (case err' of None \<Rightarrow> Returned m None | Some _ \<Rightarrow> AtGetVal m) w2"
        for k
        using g Inr pr c by (simp add: allocStep_def Let_def)
      have "\<exists>k. runAlloc k js (case err' of None \<Rightarrow> Returned m None | Some _ \<Rightarrow> AtGetVal m) w2 =
              (Returned i e, w')"
      proof (cases err')
        case None
        with step less.prems have "i = m" "e = None" "w' = w2"
          by (subst (asm) (2) nextIDLoop.simps, simp)+
        with None show ?thesis by (intro exI [of _ 0]) simp
      next
        case (Some e')
        from gv obtain t where "map_of (kv w1) (Key ?new) = Some (Value kvp, t)" by auto
        with kvCompareAndSet_fails [OF c [unfolded Some], of t]
        have "sched w1 \<noteq> []" "sched w2 = tl (sched w1)" by auto
        with gv have lt: "length (sched w2) < length (sched w)"
          by (cases "sched w") (auto simp: less_Suc_eq_le)
        have "nextIDLoop js m err' w2 = Some ((i, e), w')" using step less.prems by simp
        from less.hyps [OF lt this] show ?thesis .
      qed
      then obtain k where
        "runAlloc k js (case err' of None \<Rightarrow> Returned m None | Some _ \<Rightarrow> AtGetVal m) w2 =
              (Returned i e, w')" ..
      with two [of k] Some show ?thesis by (intro exI [of _ "Suc (Suc k)"]) simp
    qed
  qed
qed

text \<open>One caller running alone is \<open>getNextIDFromKVDB\<close>: the function returns a
  result exactly when the caller's steps reach it.\<close>

lemma getNextIDFromKVDB_run:
  "getNextIDFromKVDB js w = Some ((i, e), w') \<longleftrightarrow>
     (\<exists>k. runAlloc k js AtCreate w = (Returned i e, w'))"
proof
  obtain r err w1 where c: "kvCreate getNextAlertIDKey (FormatInt (0 + 1)) 0 w = ((r, err), w1)"
    by (metis surj_pair)
  have one: "runAlloc (Suc k) js AtCreate w =
               runAlloc k js (case err of None \<Rightarrow> Returned 0 None | Some _ \<Rightarrow> AtGetVal 0) w1" for k
    using c by (simp add: allocStep_def)
  have fwd: "\<exists>k. runAlloc k js AtCreate w = (Returned i' e', w'')"
    if "getNextIDFromKVDB js w = Some ((i', e'), w'')" for i' e' w''
  proof -
    from that c have "nextIDLoop js 0 err w1 = Some ((i', e'), w'')"
      by (simp add: getNextIDFromKVDB_def)
    from nextIDLoop_run [OF this] obtain k where
      "runAlloc k js (case err of None \<Rightarrow> Returned 0 None | Some _ \<Rightarrow> AtGetVal 0) w1 =
         (Returned i' e', w'')" ..
    with one [of k] show ?thesis by (intro exI [of _ "Suc k"]) simp
  qed
  {
    assume "getNextIDFromKVDB js w = Some ((i, e), w')"
    from fwd [OF this] show "\<exists>k. runAlloc k js AtCreate w = (Returned i e, w')" .
  next
    assume "\<exists>k. runAlloc k js AtCreate w = (Returned i e, w')"
    then obtain k where k: "runAlloc k js AtCreate w = (Returned i e, w')" ..
    obtain x where "nextIDLoop js 0 err w1 = Some x" using nextIDLoop_returns by blast
    with c obtain i' e' w'' where g: "getNextIDFromKVDB js w = Some ((i', e'), w'')"
      by (cases x) (auto simp: getNextIDFromKVDB_def)
    from fwd [OF this] obtain k' where k': "runAlloc k' js AtCreate w = (Returned i' e', w'')" ..
    have "runAlloc (k + k') js AtCreate w = (Returned i e, w')"
      using k by (simp add: runAlloc_add runAlloc_Returned)
    moreover have "runAlloc (k' + k) js AtCreate w = (Returned i' e', w'')"
      using k' by (simp add: runAlloc_add runAlloc_Returned)
    ultimately have "i' = i" "e' = e" "w'' = w'" by (simp_all add: add.commute)
    with g show "getNextIDFromKVDB js w = Some ((i, e), w')" by simp
  }
qed

lemma allocInvD:
  assumes "allocInv js c N"
  shows "\<forall>st \<in> set (sched (shared c)). isFault st"
    and "N = 0 \<longrightarrow> map_of (kv (shared c)) getNextAlertIDKey = None"
    and "0 < N \<longrightarrow> (\<exists>t. map_of (kv (shared c)) getNextAlertIDKey =
                         Some (FormatInt (word_of_nat N), t))"
    and "\<forall>p i. procs c p = Returned i None \<longrightarrow> unat i < N"
    and "\<forall>p q i j. p \<noteq> q \<and> procs c p = Returned i None \<and> procs c q = Returned j None \<longrightarrow> i \<noteq> j"
    and "\<forall>p kvp m. procs c p = AtCompareAndSet kvp m \<longrightarrow>
           Key kvp = getNextAlertIDKey \<and> (\<exists>x. unmarshalInt js (Value kvp) x = (m, None))"
  using assms unfolding allocInv_def by simp_all

lemma allocInvI:
  assumes "\<forall>st \<in> set (sched (shared c)). isFault st"
      and "N = 0 \<longrightarrow> map_of (kv (shared c)) getNextAlertIDKey = None"
      and "0 < N \<longrightarrow> (\<exists>t. map_of (kv (shared c)) getNextAlertIDKey =
                         Some (FormatInt (word_of_nat N), t))"
      and "\<forall>p i. procs c p = Returned i None \<longrightarrow> unat i < N"
      and "\<forall>p q i j. p \<noteq> q \<and> procs c p = Returned i None \<and> procs c q = Returned j None \<longrightarrow> i \<noteq> j"
      and "\<forall>p kvp m. procs c p = AtCompareAndSet kvp m \<longrightarrow>
           Key kvp = getNextAlertIDKey \<and> (\<exists>x. unmarshalInt js (Value kvp) x = (m, None))"
  shows "allocInv js c N"
  using assms unfolding allocInv_def by simp

lemma allocInv_keep:
  assumes inv: "allocInv js c N"
      and fo: "\<forall>st \<in> set (sched w'). isFault st" and kv: "kv w' = kv (shared c)"
      and ret: "\<forall>i. pc' = Returned i None \<longrightarrow> procs c p = Returned i None"
      and cas': "\<forall>kvp m. pc' = AtCompareAndSet kvp m \<longrightarrow>
          Key kvp = getNextAlertIDKey \<and> (\<exists>x. unmarshalInt js (Value kvp) x = (m, None))"
  shows "allocInv js \<lparr>procs = (procs c)(p := pc'), shared = w'\<rparr> N"
proof (rule allocInvI)
  let ?c' = "\<lparr>procs = (procs c)(p := pc'), shared = w'\<rparr>"
  note d = allocInvD [OF inv]
  show "\<forall>st \<in> set (sched (shared ?c')). isFault st" using fo by simp
  show "N = 0 \<longrightarrow> map_of (kv (shared ?c')) getNextAlertIDKey = None"
    using d(2) kv by simp
  show "0 < N \<longrightarrow> (\<exists>t. map_of (kv (shared ?c')) getNextAlertIDKey =
                         Some (FormatInt (word_of_nat N), t))"
    using d(3) kv by simp
  have old: "procs c q = Returned i None" if "procs ?c' q = Returned i None" for q i
    using that ret by (cases "q = p") simp_all
  show "\<forall>q i. procs ?c' q = Returned i None \<longrightarrow> unat i < N"
    using old d(4) by blast
  show "\<forall>q r i j. q \<noteq> r \<and> procs ?c' q = Returned i None \<and> procs ?c' r = Returned j None \<longrightarrow> i \<noteq> j"
  proof (intro allI impI)
    fix q r i j
    assume a: "q \<noteq> r \<and> procs ?c' q = Returned i None \<and> procs ?c' r = Returned j None"
    then have "procs c q = Returned i None" "procs c r = Returned j None" "q \<noteq> r"
      using old by blast+
    with d(5) show "i \<noteq> j" by blast
  qed
  show "\<forall>q kvp m. procs ?c' q = AtCompareAndSet kvp m \<longrightarrow>
           Key kvp = getNextAlertIDKey \<and> (\<exists>x. unmarshalInt js (Value kvp) x = (m, None))"
  proof (intro allI impI)
    fix q kvp m
    assume a: "procs ?c' q = AtCompareAndSet kvp m"
    show "Key kvp = getNextAlertIDKey \<and> (\<exists>x. unmarshalInt js (Value kvp) x = (m, None))"
    proof (cases "q = p")
      case True
      with a have "pc' = AtCompareAndSet kvp m" by simp
      with cas' show ?thesis by blast
    next
      case False
      with a have "procs c q = AtCompareAndSet kvp m" by simp
      with d(6) show ?thesis by blast
    qed
  qed
qed

lemma allocInv_grow:
  assumes inv: "allocInv js c N" and bound: "N < 2 ^ 64"
      and fo: "\<forall>st \<in> set (sched w'). isFault st"
      and kv: "kv w' = setKey getNextAlertIDKey (FormatInt (word_of_nat (Suc N)), t) (kv (shared c))"
  shows "allocInv js \<lparr>procs = (procs c)(p := Returned (word_of_nat N) None), shared = w'\<rparr> (Suc N)"
proof (rule allocInvI)
  let ?c' = "\<lparr>procs = (procs c)(p := Returned (word_of_nat N) None), shared = w'\<rparr>"
  note d = allocInvD [OF inv]
  have un: "unat (word_of_nat N :: int64) = N"
    using bound by (intro of_nat_inverse) simp_all
  show "\<forall>st \<in> set (sched (shared ?c')). isFault st" using fo by simp
  show "Suc N = 0 \<longrightarrow> map_of (kv (shared ?c')) getNextAlertIDKey = None" by simp
  show "0 < Suc N \<longrightarrow> (\<exists>t. map_of (kv (shared ?c')) getNextAlertIDKey =
                         Some (FormatInt (word_of_nat (Suc N)), t))"
    using kv by (simp add: map_of_setKey)
  have old: "q = p \<and> i = word_of_nat N \<or> q \<noteq> p \<and> procs c q = Returned i None"
    if "procs ?c' q = Returned i None" for q i
    using that by (cases "q = p") simp_all
  have lt: "unat i < N" if "procs c q = Returned i None" for q i
    using d(4) that by blast
  show "\<forall>q i. procs ?c' q = Returned i None \<longrightarrow> unat i < Suc N"
  proof (intro allI impI)
    fix q i assume "procs ?c' q = Returned i None"
    from old [OF this] show "unat i < Suc N"
    proof
      assume "q = p \<and> i = word_of_nat N"
      then show ?thesis using un by simp
    next
      assume "q \<noteq> p \<and> procs c q = Returned i None"
      then show ?thesis using lt [of q i] by simp
    qed
  qed
  show "\<forall>q r i j. q \<noteq> r \<and> procs ?c' q = Returned i None \<and> procs ?c' r = Returned j None \<longrightarrow> i \<noteq> j"
  proof (intro allI impI)
    fix q r i j
    assume a: "q \<noteq> r \<and> procs ?c' q = Returned i None \<and> procs ?c' r = Returned j None"
    then have qr: "q \<noteq> r" and oq: "q = p \<and> i = word_of_nat N \<or> q \<noteq> p \<and> procs c q = Returned i None"
      and orr: "r = p \<and> j = word_of_nat N \<or> r \<noteq> p \<and> procs c r = Returned j None"
      using old by blast+
    show "i \<noteq> j"
    proof (cases "q = p")
      case True
      with oq qr orr have "i = word_of_nat N" "procs c r = Returned j None" by auto
      with lt [of r j] un show ?thesis by auto
    next
      case False
      note qp = this
      show ?thesis
      proof (cases "r = p")
        case True
        with orr qp oq have "j = word_of_nat N" "procs c q = Returned i None" by auto
        with lt [of q i] un show ?thesis by auto
      next
        case False
        with qp oq orr have "procs c q = Returned i None" "procs c r = Returned j None" by auto
        with d(5) qr show ?thesis by blast
      qed
    qed
  qed
  show "\<forall>q kvp m. procs ?c' q = AtCompareAndSet kvp m \<longrightarrow>
           Key kvp = getNextAlertIDKey \<and> (\<exists>x. unmarshalInt js (Value kvp) x = (m, None))"
  proof (intro allI impI)
    fix q kvp m
    assume a: "procs ?c' q = AtCompareAndSet kvp m"
    then have "q \<noteq> p" by (cases "q = p") simp_all
    with a have "procs c q = AtCompareAndSet kvp m" by simp
    with d(6) show "Key kvp = getNextAlertIDKey \<and> (\<exists>x. unmarshalInt js (Value kvp) x = (m, None))"
      by blast
  qed
qed

lemma allocInv_step:
  assumes rt: "\<forall>v x. unmarshalInt js (FormatInt v) x = (v, None)"
      and inv: "allocInv js c N" and bound: "N < 2 ^ 64"
  shows "\<exists>N'. N' \<le> Suc N \<and> allocInv js (stepConc js p c) N'"
proof -
  let ?key = getNextAlertIDKey
  let ?w = "shared c"
  note d = allocInvD [OF inv]
  note fo = d(1)
  show ?thesis
  proof (cases "procs c p")
    case AtCreate
    obtain r err w1 where cr: "kvCreate ?key (FormatInt (0 + 1)) 0 ?w = ((r, err), w1)"
      by (metis surj_pair)
    note cc = kvCreate_cases [OF fo cr]
    show ?thesis
    proof (cases err)
      case (Some e)
      have s: "stepConc js p c = \<lparr>procs = (procs c)(p := AtGetVal 0), shared = w1\<rparr>"
        using AtCreate cr Some by (simp add: stepConc_def allocStep_def)
      have "allocInv js \<lparr>procs = (procs c)(p := AtGetVal 0), shared = w1\<rparr> N"
        using cc Some by (intro allocInv_keep [OF inv]) simp_all
      with s show ?thesis by (intro exI [of _ N]) simp
    next
      case None
      have s: "stepConc js p c = \<lparr>procs = (procs c)(p := Returned 0 None), shared = w1\<rparr>"
        using AtCreate cr None by (simp add: stepConc_def allocStep_def)
      from cc None have ab: "map_of (kv ?w) ?key = None"
        and k1: "kv w1 = setKey ?key (FormatInt (0 + 1), 0) (kv ?w)"
        and f1: "\<forall>st \<in> set (sched w1). isFault st" by simp_all
      from ab d(3) have n0: "N = 0" by (cases N) auto
      have "allocInv js \<lparr>procs = (procs c)(p := Returned (word_of_nat N) None), shared = w1\<rparr> (Suc N)"
        using f1 k1 n0 by (intro allocInv_grow [OF inv bound, where t = 0]) simp_all
      with s n0 show ?thesis by (intro exI [of _ "Suc N"]) simp
    qed
  next
    case (AtGetVal n)
    obtain r w1 where g: "kvGetVal ?key (unmarshalInt js) n ?w = (r, w1)" by force
    note gf = kvGetVal_faultsOnly [OF fo g]
    show ?thesis
    proof (cases r)
      case (Inl e)
      have s: "stepConc js p c =
                 \<lparr>procs = (procs c)(p := Returned (- 1) (Some ErrNotInitialized)), shared = w1\<rparr>"
        using AtGetVal g Inl by (simp add: stepConc_def allocStep_def)
      have "allocInv js \<lparr>procs = (procs c)(p := Returned (- 1) (Some ErrNotInitialized)),
                          shared = w1\<rparr> N"
        using gf by (intro allocInv_keep [OF inv]) simp_all
      with s show ?thesis by (intro exI [of _ N]) simp
    next
      case (Inr pr)
      obtain kvp m where pr: "pr = (kvp, m)" by force
      have s: "stepConc js p c = \<lparr>procs = (procs c)(p := AtCompareAndSet kvp m), shared = w1\<rparr>"
        using AtGetVal g Inr pr by (simp add: stepConc_def allocStep_def)
      from kvGetVal_Inr [OF g [unfolded Inr pr]]
      have "Key kvp = ?key" "unmarshalInt js (Value kvp) n = (m, None)" by simp_all
      then have "allocInv js \<lparr>procs = (procs c)(p := AtCompareAndSet kvp m), shared = w1\<rparr> N"
        using gf by (intro allocInv_keep [OF inv]) auto
      with s show ?thesis by (intro exI [of _ N]) simp
    qed
  next
    case (AtCompareAndSet kvp m)
    let ?new = "kvp\<lparr>Value := FormatInt (m + 1)\<rparr>"
    obtain r err w1 where cs: "kvCompareAndSet ?new 0 (Value kvp) ?w = ((r, err), w1)"
      by (metis surj_pair)
    note cc = kvCompareAndSet_cases [OF fo cs]
    from d(6) [rule_format, OF AtCompareAndSet] obtain x where
      k: "Key kvp = ?key" and dec: "unmarshalInt js (Value kvp) x = (m, None)" by auto
    show ?thesis
    proof (cases err)
      case (Some e)
      have s: "stepConc js p c = \<lparr>procs = (procs c)(p := AtGetVal m), shared = w1\<rparr>"
        using AtCompareAndSet cs Some by (simp add: stepConc_def allocStep_def Let_def)
      have "allocInv js \<lparr>procs = (procs c)(p := AtGetVal m), shared = w1\<rparr> N"
        using cc Some by (intro allocInv_keep [OF inv]) simp_all
      with s show ?thesis by (intro exI [of _ N]) simp
    next
      case None
      have s: "stepConc js p c = \<lparr>procs = (procs c)(p := Returned m None), shared = w1\<rparr>"
        using AtCompareAndSet cs None by (simp add: stepConc_def allocStep_def Let_def)
      from cc None k obtain t where
        pres: "map_of (kv ?w) ?key = Some (Value kvp, t)"
        and k1: "kv w1 = setKey ?key (FormatInt (m + 1), TTL kvp) (kv ?w)"
        and f1: "\<forall>st \<in> set (sched w1). isFault st" by auto
      from pres d(2) have pos: "0 < N" by (cases N) auto
      with d(3) pres have "Value kvp = FormatInt (word_of_nat N)" by auto
      with dec rt have m: "m = word_of_nat N" by auto
      have m1: "m + 1 = word_of_nat (Suc N)" using m by simp
      have "allocInv js \<lparr>procs = (procs c)(p := Returned (word_of_nat N) None), shared = w1\<rparr> (Suc N)"
        using f1 k1 m1 by (intro allocInv_grow [OF inv bound, where t = "TTL kvp"]) simp_all
      with s m show ?thesis by (intro exI [of _ "Suc N"]) simp
    qed
  next
    case (Returned i e)
    have s: "stepConc js p c = \<lparr>procs = (procs c)(p := Returned i e), shared = ?w\<rparr>"
      using Returned by (simp add: stepConc_def allocStep_def)
    have "allocInv js \<lparr>procs = (procs c)(p := Returned i e), shared = ?w\<rparr> N"
      using fo Returned by (intro allocInv_keep [OF inv]) simp_all
    with s show ?thesis by (intro exI [of _ N]) simp
  qed
qed

lemma allocInv_run:
  assumes rt: "\<forall>v x. unmarshalInt js (FormatInt v) x = (v, None)"
  shows "allocInv js c N \<Longrightarrow> N + length ps \<le> 2 ^ 64 \<Longrightarrow>
           \<exists>N'. allocInv js (runConc js ps c) N'"
proof (induction ps arbitrary: c N)
  case Nil
  then show ?case by auto
next
  case (Cons p ps)
  from Cons.prems(2) have b: "N < 2 ^ 64" and l: "Suc N + length ps \<le> 2 ^ 64" by simp_all
  from allocInv_step [OF rt Cons.prems(1) b, of p] obtain N' where
    N': "N' \<le> Suc N" "allocInv js (stepConc js p c) N'" by blast
  with l have "N' + length ps \<le> 2 ^ 64" by linarith
  from Cons.IH [OF N'(2) this] show ?case by simp
qed

text \<open>
  Claim C2. Any number of allocations run concurrently on one namespace, their
  store calls interleaved in any order and failing at any point, starting from
  a store without counter. The identifiers of the allocations that have
  succeeded are pairwise distinct; a finished allocation keeps its identifier
  for good, so none is handed out again. The decoder is taken to read a number
  back as \<open>FormatInt\<close> writes it, and the run to make at most \<open>2 ^ 64\<close> store
  calls, the identifiers being 64-bit.
\<close>

theorem allocated_ids_distinct:
  assumes rt: "\<forall>v x. unmarshalInt js (FormatInt v) x = (v, None)"
      and fresh: "map_of (kv w) getNextAlertIDKey = None"
      and env: "\<forall>st \<in> set (sched w). isFault st"
      and len: "length ps \<le> 2 ^ 64"
      and c: "c = runConc js ps (initial w)"
      and pq: "p \<noteq> q" "procs c p = Returned i None" "procs c q = Returned j None"
  shows "i \<noteq> j"
proof -
  have "allocInv js (initial w) 0"
    using fresh env by (intro allocInvI) (simp_all add: initial_def)
  from allocInv_run [OF rt this, of ps] len c obtain N where "allocInv js c N" by auto
  from allocInvD(5) [OF this] pq show ?thesis by blast
qed

lemma digitVal_digit: "d < 10 \<Longrightarrow> digitVal (''0123456789'' ! d) = Some d"
proof -
  assume "d < 10"
  then have "d = 0 \<or> d = 1 \<or> d = 2 \<or> d = 3 \<or> d = 4 \<or> d = 5 \<or> d = 6 \<or> d = 7 \<or> d = 8 \<or> d = 9"
    by arith
  then show ?thesis by (elim disjE) (simp_all add: digitVal_def)
qed

lemma parseDigits_append:
  "parseDigits (xs @ ys) acc =
     (case parseDigits xs acc of None \<Rightarrow> None | Some a \<Rightarrow> parseDigits ys a)"
  by (induction xs arbitrary: acc) (auto split: option.splits)

lemma parseDigits_FormatNat: "parseDigits (FormatNat n) 0 = Some n"
proof (induction n rule: FormatNat.induct)
  case (1 n)
  show ?case
  proof (cases "n < 10")
    case True
    then show ?thesis by (subst FormatNat.simps) (simp add: digitVal_digit)
  next
    case False
    have "n mod 10 < 10" by simp
    with 1 False show ?thesis
      by (subst FormatNat.simps) (simp add: parseDigits_append digitVal_digit)
  qed
qed

lemma FormatNat_hd: "\<exists>c ds. FormatNat n = c # ds \<and> digitVal c \<noteq> None"
proof (induction n rule: FormatNat.induct)
  case (1 n)
  show ?case
  proof (cases "n < 10")
    case True
    then show ?thesis by (subst FormatNat.simps) (simp add: digitVal_digit)
  next
    case False
    with 1 obtain c ds where "FormatNat (n div 10) = c # ds" "digitVal c \<noteq> None" by blast
    with False show ?thesis by (subst FormatNat.simps) simp
  qed
qed

text \<open>The sample decoder reads every number back as \<open>FormatInt\<close> writes it.\<close>

lemma exUnmarshalInt_FormatInt: "exUnmarshalInt (FormatInt v) x = (v, None)"
proof (cases "sint v < 0")
  case True
  obtain c ds where f: "FormatNat (nat (- sint v)) = c # ds" using FormatNat_hd by blast
  have "(word_of_nat (nat (- sint v)) :: int64) = word_of_int (- sint v)"
    using True by (simp add: of_nat_nat)
  also have "\<dots> = - v" by simp
  finally have w: "- (word_of_nat (nat (- sint v)) :: int64) = v" by simp
  have "parseDigits (c # ds) 0 = Some (nat (- sint v))"
    using parseDigits_FormatNat [of "nat (- sint v)"] f by simp
  with True f w show ?thesis
    by (simp add: exUnmarshalInt_def FormatInt_def)
next
  case False
  obtain c ds where f: "FormatNat (nat (sint v)) = c # ds" "digitVal c \<noteq> None"
    using FormatNat_hd by blast
  then have c: "c \<noteq> CHR ''-''" by (auto simp: digitVal_def)
  have w: "(word_of_nat (nat (sint v)) :: int64) = v"
    using False by (simp add: of_nat_nat)
  have "parseDigits (c # ds) 0 = Some (nat (sint v))"
    using parseDigits_FormatNat [of "nat (sint v)"] f by simp
  with False f c w show ?thesis
    by (simp add: exUnmarshalInt_def FormatInt_def)
qed

text \<open>Three allocations: the first creates the counter, the other two read it at
  the same value, and the one that loses the compare-and-set goes round again.\<close>

theorem allocated_ids_distinct_witness:
  "procs (runConc exCodec [0, 1, 2, 1, 2, 1, 2, 2, 2] (initial (exWorld [] []))) 0 = Returned 0 None \<and>
   procs (runConc exCodec [0, 1, 2, 1, 2, 1, 2, 2, 2] (initial (exWorld [] []))) 1 = Returned 1 None \<and>
   procs (runConc exCodec [0, 1, 2, 1, 2, 1, 2, 2, 2] (initial (exWorld [] []))) 2 = Returned 2 None \<and>
   (1 :: int64) \<noteq> 2"
proof -
  let ?c = "runConc exCodec [0, 1, 2, 1, 2, 1, 2, 2, 2] (initial (exWorld [] []))"
  have rt: "\<forall>v x. unmarshalInt exCodec (FormatInt v) x = (v, None)"
    by (simp add: exCodec_def exUnmarshalInt_FormatInt)
  have fresh: "map_of (kv (exWorld [] [])) getNextAlertIDKey = None"
    by (simp add: exWorld_def)
  have env: "\<forall>st \<in> set (sched (exWorld [] [])). isFault st"
    by (simp add: exWorld_def)
  have len: "length [0, 1, 2, 1, 2, 1, 2, 2, 2 :: nat] \<le> 2 ^ 64" by simp
  have p0: "procs ?c 0 = Returned 0 None" by code_simp
  have p1: "procs ?c 1 = Returned 1 None" by code_simp
  have p2: "procs ?c 2 = Returned 2 None" by code_simp
  have "(1 :: nat) \<noteq> 2" by simp
  from allocated_ids_distinct [OF rt fresh env len refl this p1 p2] p0 p1 p2
  show ?thesis by simp
qed

end
